theory Spec2Isabelle
  imports Complex_Main "HOL-Library.Word"
begin

section \<open>Data model (types.ts)\<close>

datatype RecorderState = IDLE | MONITORING | RECORDING | ANALYZING | WAITING_FOR_START

datatype DetectionMode = GEMINI | LOCAL

datatype Status = saved | discarded | error | manual_review

text \<open>A \<open>Blob\<close> is a sequence of bytes; \<open>new Blob(parts)\<close> concatenates its parts.\<close>

type_synonym Blob = "8 word list"

text \<open>
  \<open>AnalysisResult\<close>: \<open>score\<close> is \<open>number | null\<close>; the response schema of the remote
  service declares it an integer, so it is an \<open>int option\<close> here, \<open>None\<close> for \<open>null\<close>.
\<close>

record AnalysisResult =
  isGameOver :: bool
  score :: "int option"
  confidence :: real

text \<open>
  \<open>AttemptRecord\<close>. The fields are prefixed because \<open>id\<close> is a constant of HOL and
  \<open>score\<close> is already a field of \<open>AnalysisResult\<close>. An absent optional field
  (\<open>undefined\<close>) is \<open>None\<close>.
\<close>

record AttemptRecord =
  rec_id :: string
  rec_timestamp :: nat
  rec_score :: "int option"
  rec_status :: Status
  videoBlob :: "Blob option"
  thumbnail :: "string option"

section \<open>Local detection service (localDetectionService.ts)\<close>

text \<open>
  The canvas context is used through \<open>getImageData(sx, sy, sw, sh)\<close> only. The call
  either throws (\<open>Inl\<close>, with the error's message) or returns the RGBA bytes of the
  rectangle (\<open>Inr\<close>), a \<open>Uint8ClampedArray\<close>.
\<close>

record CanvasRenderingContext2D =
  getImageData :: "int \<Rightarrow> int \<Rightarrow> nat \<Rightarrow> nat \<Rightarrow> string + 8 word list"

definition TARGET_BLUE :: "int \<times> int \<times> int" where
  "TARGET_BLUE = (66, 133, 244)"

definition TARGET_GREEN :: "int \<times> int \<times> int" where
  "TARGET_GREEN = (52, 168, 83)"

definition COLOR_TOLERANCE :: real where
  "COLOR_TOLERANCE = 70"

definition scanWidth :: nat where
  "scanWidth = 20"

text \<open>
  \<open>frameData[index]\<close>: a typed array read. Out of range JavaScript yields
  \<open>undefined\<close>, which is \<open>None\<close> here; every comparison below is false on it, as
  comparisons with \<open>NaN\<close> and \<open>undefined\<close> are.
\<close>

definition at_index :: "8 word list \<Rightarrow> nat \<Rightarrow> int option" where
  "at_index frameData index =
     (if index < length frameData then Some (uint (frameData ! index)) else None)"

text \<open>
  \<open>colorMatch\<close>: the Euclidean distance to the target is below the tolerance. The
  channels are integers in 0..255, so the sum of squares is an integer that a double
  holds exactly, and the correctly rounded square root of an integer is below 70
  exactly when the integer is below 4900 (lemma \<open>colorMatch_int\<close>).
\<close>

definition colorMatch ::
  "int option \<Rightarrow> int option \<Rightarrow> int option \<Rightarrow> int \<times> int \<times> int \<Rightarrow> bool" where
  "colorMatch r g b target =
     (case (r, g, b) of
        (Some r', Some g', Some b') \<Rightarrow>
          (let distance = sqrt (real_of_int ((r' - fst target)\<^sup>2 +
                                             (g' - fst (snd target))\<^sup>2 +
                                             (b' - snd (snd target))\<^sup>2))
           in distance < COLOR_TOLERANCE)
      | _ \<Rightarrow> False)"

definition isWhiteish :: "int option \<Rightarrow> int option \<Rightarrow> int option \<Rightarrow> bool" where
  "isWhiteish r g b =
     (case (r, g, b) of
        (Some r', Some g', Some b') \<Rightarrow> r' > 220 \<and> g' > 220 \<and> b' > 220
      | _ \<Rightarrow> False)"

text \<open>
  The inner loop \<open>for (x = 0; x < scanWidth; x++)\<close> over one row, carrying
  \<open>(rowBlueCount, rowGreenCount, rowWhiteCount)\<close>.
\<close>

function rowLoop :: "8 word list \<Rightarrow> nat \<Rightarrow> nat \<Rightarrow> nat \<times> nat \<times> nat \<Rightarrow> nat \<times> nat \<times> nat" where
  "rowLoop frameData y x (rowBlueCount, rowGreenCount, rowWhiteCount) =
     (if x < scanWidth then
        (let index = (y * scanWidth + x) * 4;
             r = at_index frameData index;
             g = at_index frameData (index + 1);
             b = at_index frameData (index + 2)
         in rowLoop frameData y (x + 1)
              (if colorMatch r g b TARGET_BLUE then rowBlueCount + 1 else rowBlueCount,
               if colorMatch r g b TARGET_GREEN then rowGreenCount + 1 else rowGreenCount,
               if isWhiteish r g b then rowWhiteCount + 1 else rowWhiteCount))
      else (rowBlueCount, rowGreenCount, rowWhiteCount))"
  by pat_completeness auto
termination
  by (relation "measure (\<lambda>(frameData, y, x, acc). scanWidth - x)") auto

text \<open>
  The outer loop \<open>for (y = 0; y < height; y++)\<close>, carrying
  \<open>(blueRows, greenRows, whiteRows)\<close>. \<open>yPercent\<close> and \<open>threshold\<close> are doubles in
  the source and reals here. The two agree on every comparison made: \<open>scanWidth * 0.4\<close>
  rounds to 8; \<open>y / height\<close> either equals the decimal it is compared with, and then
  rounds to the same double as the literal, or differs from it by at least
  \<open>1 / (100 * height)\<close>, far more than the rounding; and \<open>height * 0.02\<close> against an
  integer count likewise.
\<close>

function frameLoop :: "8 word list \<Rightarrow> nat \<Rightarrow> nat \<Rightarrow> nat \<times> nat \<times> nat \<Rightarrow> nat \<times> nat \<times> nat" where
  "frameLoop frameData height y (blueRows, greenRows, whiteRows) =
     (if y < height then
        (let (rowBlueCount, rowGreenCount, rowWhiteCount) = rowLoop frameData y 0 (0, 0, 0);
             yPercent = real y / real height;
             threshold = real scanWidth * 0.4
         in frameLoop frameData height (y + 1)
              (if yPercent < 0.40 \<and> real rowBlueCount > threshold
                 then blueRows + 1 else blueRows,
               if yPercent > 0.30 \<and> yPercent < 0.70 \<and> real rowGreenCount > threshold
                 then greenRows + 1 else greenRows,
               if yPercent > 0.50 \<and> yPercent < 0.85 \<and> real rowWhiteCount > threshold
                 then whiteRows + 1 else whiteRows))
      else (blueRows, greenRows, whiteRows))"
  by pat_completeness auto
termination
  by (relation "measure (\<lambda>(frameData, height, y, acc). height - y)") auto

text \<open>
  \<open>analyzeGameFrameLocally\<close>. The whole body is inside \<open>try\<close>; the only call that can
  throw is \<open>getImageData\<close>, and the \<open>catch\<close> returns the negative result.
\<close>

definition analyzeGameFrameLocally ::
  "CanvasRenderingContext2D \<Rightarrow> nat \<Rightarrow> nat \<Rightarrow> AnalysisResult" where
  "analyzeGameFrameLocally ctx width height =
     (let centerX = width div 2;
          startX = max 0 (int centerX - int (scanWidth div 2))
      in case getImageData ctx startX 0 scanWidth height of
           Inl err \<Rightarrow> \<lparr>isGameOver = False, score = None, confidence = 0\<rparr>
         | Inr frameData \<Rightarrow>
             (let (blueRows, greenRows, whiteRows) = frameLoop frameData height 0 (0, 0, 0);
                  hasRibbon = (real blueRows > real height * 0.02);
                  hasButton = (real greenRows > real height * 0.02);
                  hasUrlBox = (real whiteRows > real height * 0.02);
                  isGameOver' = (hasRibbon \<and> (hasButton \<or> hasUrlBox))
              in \<lparr>isGameOver = isGameOver', score = None,
                  confidence = (if isGameOver' then 1.0 else 0.0)\<rparr>))"

subsection \<open>The classifier as the specification words it\<close>

text \<open>
  The strip is 20 pixels wide; pixel \<open>x\<close> of row \<open>y\<close> starts at byte
  \<open>(y * 20 + x) * 4\<close>. A pixel matches a reference colour when its squared distance
  is below \<open>70\<^sup>2\<close>; it is white when all three channels exceed 220. Percentages are
  compared exactly, in integers.
\<close>

definition pixel :: "8 word list \<Rightarrow> nat \<Rightarrow> nat \<Rightarrow> int option \<times> int option \<times> int option" where
  "pixel frameData y x =
     (at_index frameData ((y * 20 + x) * 4),
      at_index frameData ((y * 20 + x) * 4 + 1),
      at_index frameData ((y * 20 + x) * 4 + 2))"

definition spec_matches :: "int \<times> int \<times> int \<Rightarrow> int option \<times> int option \<times> int option \<Rightarrow> bool" where
  "spec_matches target p =
     (case p of
        (Some r, Some g, Some b) \<Rightarrow>
          (r - fst target)\<^sup>2 + (g - fst (snd target))\<^sup>2 + (b - snd (snd target))\<^sup>2 < 70\<^sup>2
      | _ \<Rightarrow> False)"

definition spec_white :: "int option \<times> int option \<times> int option \<Rightarrow> bool" where
  "spec_white p =
     (case p of (Some r, Some g, Some b) \<Rightarrow> 220 < r \<and> 220 < g \<and> 220 < b | _ \<Rightarrow> False)"

definition spec_count :: "(int option \<times> int option \<times> int option \<Rightarrow> bool) \<Rightarrow> 8 word list \<Rightarrow> nat \<Rightarrow> nat" where
  "spec_count P frameData y = length (filter (\<lambda>x. P (pixel frameData y x)) [0..<20])"

definition spec_blueRow :: "8 word list \<Rightarrow> nat \<Rightarrow> nat \<Rightarrow> bool" where
  "spec_blueRow frameData height y =
     (100 * spec_count (spec_matches (66, 133, 244)) frameData y > 40 * 20 \<and>
      100 * y < 40 * height)"

definition spec_greenRow :: "8 word list \<Rightarrow> nat \<Rightarrow> nat \<Rightarrow> bool" where
  "spec_greenRow frameData height y =
     (100 * spec_count (spec_matches (52, 168, 83)) frameData y > 40 * 20 \<and>
      30 * height < 100 * y \<and> 100 * y < 70 * height)"

definition spec_whiteRow :: "8 word list \<Rightarrow> nat \<Rightarrow> nat \<Rightarrow> bool" where
  "spec_whiteRow frameData height y =
     (100 * spec_count spec_white frameData y > 40 * 20 \<and>
      50 * height < 100 * y \<and> 100 * y < 85 * height)"

definition spec_rows :: "(nat \<Rightarrow> bool) \<Rightarrow> nat \<Rightarrow> nat" where
  "spec_rows R height = length (filter R [0..<height])"

definition spec_hasRibbon :: "8 word list \<Rightarrow> nat \<Rightarrow> bool" where
  "spec_hasRibbon frameData height =
     (100 * spec_rows (spec_blueRow frameData height) height > 2 * height)"

definition spec_hasButton :: "8 word list \<Rightarrow> nat \<Rightarrow> bool" where
  "spec_hasButton frameData height =
     (100 * spec_rows (spec_greenRow frameData height) height > 2 * height)"

definition spec_hasUrlBox :: "8 word list \<Rightarrow> nat \<Rightarrow> bool" where
  "spec_hasUrlBox frameData height =
     (100 * spec_rows (spec_whiteRow frameData height) height > 2 * height)"

definition spec_isGameOver :: "8 word list \<Rightarrow> nat \<Rightarrow> bool" where
  "spec_isGameOver frameData height =
     (spec_hasRibbon frameData height \<and>
      (spec_hasButton frameData height \<or> spec_hasUrlBox frameData height))"

definition spec_classify :: "8 word list \<Rightarrow> nat \<Rightarrow> AnalysisResult" where
  "spec_classify frameData height =
     \<lparr>isGameOver = spec_isGameOver frameData height, score = None,
      confidence = (if spec_isGameOver frameData height then 1 else 0)\<rparr>"

section \<open>Recorder component (Recorder.tsx)\<close>

definition TARGET_SCORE :: int where
  "TARGET_SCORE = 45"

definition BASE_INTERVAL_MS :: nat where
  "BASE_INTERVAL_MS = 4000"

definition LOCAL_INTERVAL_MS :: nat where
  "LOCAL_INTERVAL_MS = 1000"

definition ERROR_BACKOFF_MS :: nat where
  "ERROR_BACKOFF_MS = 10000"

text \<open>\<open>MediaRecorder.state\<close>; the component never pauses a recorder.\<close>

datatype RecordingState = inactive | recording

text \<open>
  The mutable state of the component, and the history list of \<open>App\<close> that
  \<open>onLogEntry\<close> prepends to. The React states \<open>recorderState\<close> and \<open>stream\<close> mirror
  \<open>stateRef\<close> and \<open>streamRef\<close> for the render and are left out.
  \<^item> \<open>streamRef\<close>: \<open>None\<close> is \<open>null\<close>, \<open>Some a\<close> a stream whose \<open>active\<close> flag is \<open>a\<close>.
  \<^item> \<open>timeoutRef\<close>: the pending timer and its delay in milliseconds; \<open>None\<close> when no
    timer is pending (\<open>clearTimeout\<close> of a timer that has fired does nothing).
  \<^item> \<open>mediaRecorderRef\<close>: \<open>None\<close> is \<open>null\<close>, else the state of the current recorder.
  \<^item> \<open>awaitingStop\<close>: the calls of \<open>handleGameOver\<close> suspended at
    \<open>await stopMediaRecorder()\<close>, each with its \<open>score\<close> and \<open>thumbnail\<close>, oldest first;
    the \<open>stop\<close> event of the recorder resumes one.
  \<^item> \<open>inFlight\<close>: the calls of \<open>performAnalysis\<close> suspended at
    \<open>await analyzeGameFrame(...)\<close>.
\<close>

record Recorder =
  mode :: DetectionMode
  stateRef :: RecorderState
  streamRef :: "bool option"
  isRateLimited :: bool
  lastAnalysis :: "(bool \<times> int option) option"
  errorMsg :: "string option"
  timeoutRef :: "nat option"
  mediaRecorderRef :: "RecordingState option"
  chunksRef :: "Blob list"
  awaitingStop :: "(int option \<times> string) list"
  inFlight :: nat
  history :: "AttemptRecord list"

text \<open>
  What a task reads from the browser while it runs: \<open>document.hidden\<close>, whether
  \<open>videoRef.current\<close> and \<open>canvasRef.current\<close> are set, the 2D context of the canvas
  (\<open>None\<close> when \<open>getContext\<close> returns \<open>null\<close>), \<open>canvas.toDataURL\<close>, the identifier
  drawn from \<open>Math.random\<close> and \<open>Date.now()\<close>.
\<close>

record Env =
  hidden :: bool
  videoEl :: bool
  canvasEl :: bool
  context2d :: "CanvasRenderingContext2D option"
  dataURL :: string
  randomId :: string
  now :: nat

text \<open>
  The remote classifier (services/geminiService.ts) lets its errors through: the call
  resolves with a result or rejects with an error, and \<open>err.message\<close> may be absent.
\<close>

datatype Outcome = Resolved AnalysisResult | Rejected "string option"

datatype CaptureOutcome = Granted | NotAllowed | OtherFailure

text \<open>\<open>String.prototype.includes\<close>.\<close>

fun includes_str :: "string \<Rightarrow> string \<Rightarrow> bool" where
  "includes_str [] p = (p = [])"
| "includes_str (c # cs) p = (take (length p) (c # cs) = p \<or> includes_str cs p)"

definition updateState :: "RecorderState \<Rightarrow> Recorder \<Rightarrow> Recorder" where
  "updateState newState c = c\<lparr>stateRef := newState\<rparr>"

definition scheduleNextAnalysis :: "nat \<Rightarrow> Recorder \<Rightarrow> Recorder" where
  "scheduleNextAnalysis delay c = c\<lparr>timeoutRef := Some delay\<rparr>"

text \<open>
  \<open>startCapture\<close>, run when \<open>getDisplayMedia\<close> settles. The first delay is
  \<open>mode === 'LOCAL' ? LOCAL_INTERVAL_MS : 1000\<close>.
\<close>

definition startCapture :: "CaptureOutcome \<Rightarrow> Recorder \<Rightarrow> Recorder" where
  "startCapture outcome c =
     (let c1 = c\<lparr>errorMsg := None\<rparr>
      in case outcome of
           Granted \<Rightarrow>
             (let c2 = c1\<lparr>streamRef := Some True\<rparr>;
                  c3 = updateState MONITORING c2;
                  interval = (if mode c = LOCAL then LOCAL_INTERVAL_MS else 1000)
              in scheduleNextAnalysis interval c3)
         | NotAllowed \<Rightarrow>
             c1\<lparr>errorMsg := Some ''Permission denied. You must allow screen sharing.''\<rparr>
         | OtherFailure \<Rightarrow>
             c1\<lparr>errorMsg := Some ''Failed to initialize screen capture.''\<rparr>)"

definition stopSession :: "Recorder \<Rightarrow> Recorder" where
  "stopSession c =
     (let c1 = c\<lparr>timeoutRef := None\<rparr>;
          c2 = (if mediaRecorderRef c1 \<noteq> None \<and> mediaRecorderRef c1 \<noteq> Some inactive
                then c1\<lparr>mediaRecorderRef := Some inactive\<rparr> else c1);
          c3 = c2\<lparr>streamRef := None\<rparr>;
          c4 = updateState IDLE c3
      in c4\<lparr>lastAnalysis := None, isRateLimited := False\<rparr>)"

definition startMediaRecorder :: "Recorder \<Rightarrow> Recorder" where
  "startMediaRecorder c =
     (if streamRef c = None \<or> mediaRecorderRef c = Some recording then c
      else updateState RECORDING (c\<lparr>chunksRef := [], mediaRecorderRef := Some recording\<rparr>))"

text \<open>\<open>recorder.ondataavailable\<close>: a chunk of positive size is pushed.\<close>

definition ondataavailable :: "Blob \<Rightarrow> Recorder \<Rightarrow> Recorder" where
  "ondataavailable data c =
     (if mediaRecorderRef c \<noteq> None \<and> length data > 0
      then c\<lparr>chunksRef := chunksRef c @ [data]\<rparr> else c)"

text \<open>
  \<open>handleGameOver\<close> after its \<open>await\<close>: the retention rule, the record, the
  notification and the last state update.
\<close>

definition finishGameOver :: "Env \<Rightarrow> int option \<Rightarrow> string \<Rightarrow> Blob \<Rightarrow> Recorder \<Rightarrow> Recorder" where
  "finishGameOver env score' thumbnail' videoBlob' c =
     (let status = (case score' of
                      None \<Rightarrow> manual_review
                    | Some n \<Rightarrow> if n \<ge> TARGET_SCORE then saved else discarded);
          record = \<lparr>rec_id = randomId env, rec_timestamp = now env, rec_score = score',
                    rec_status = status,
                    videoBlob = (if status \<noteq> discarded then Some videoBlob' else None),
                    thumbnail = Some thumbnail'\<rparr>
      in updateState WAITING_FOR_START (c\<lparr>history := record # history c\<rparr>))"

text \<open>
  \<open>handleGameOver\<close> up to its \<open>await\<close>, with \<open>stopMediaRecorder\<close> inlined. With no
  recorder or an inactive one the promise is resolved at once with an empty blob and
  the rest of \<open>handleGameOver\<close> runs within the same task. Otherwise \<open>onstop\<close> is set,
  \<open>stop()\<close> makes the recorder inactive and the call stays suspended until the
  \<open>stop\<close> event.
\<close>

definition handleGameOver :: "Env \<Rightarrow> int option \<Rightarrow> string \<Rightarrow> Recorder \<Rightarrow> Recorder" where
  "handleGameOver env score' thumbnail' c =
     (let c1 = updateState ANALYZING c
      in if mediaRecorderRef c1 = None \<or> mediaRecorderRef c1 = Some inactive
         then finishGameOver env score' thumbnail' [] c1
         else c1\<lparr>mediaRecorderRef := Some inactive,
                 awaitingStop := awaitingStop c1 @ [(score', thumbnail')]\<rparr>)"

text \<open>
  The \<open>stop\<close> event: \<open>onstop\<close> builds the blob from the chunks, clears them and
  resolves the promise; the suspended \<open>handleGameOver\<close> continues.
\<close>

definition onstop :: "Env \<Rightarrow> Recorder \<Rightarrow> Recorder" where
  "onstop env c =
     (case awaitingStop c of
        [] \<Rightarrow> c
      | (score', thumbnail') # rest \<Rightarrow>
          (let blob = concat (chunksRef c);
               c1 = c\<lparr>chunksRef := [], awaitingStop := rest\<rparr>
           in finishGameOver env score' thumbnail' blob c1))"

text \<open>\<open>performAnalysis\<close> from \<open>setLastAnalysis\<close> on: the dispatch on the current state.\<close>

definition applyResult :: "Env \<Rightarrow> AnalysisResult \<Rightarrow> Recorder \<Rightarrow> Recorder" where
  "applyResult env result c =
     (let c1 = c\<lparr>lastAnalysis := Some (isGameOver result, score result)\<rparr>;
          currentState = stateRef c1;
          base64ForThumbnail = (if mode c1 = GEMINI then None else Some (dataURL env))
      in if currentState = MONITORING then
           (if isGameOver result then updateState WAITING_FOR_START c1
            else startMediaRecorder c1)
         else if currentState = RECORDING then
           (if isGameOver result then
              (let thumb = (case base64ForThumbnail of
                              Some u \<Rightarrow> if u \<noteq> [] then u else dataURL env
                            | None \<Rightarrow> dataURL env)
               in handleGameOver env (score result) thumb c1)
            else c1)
         else if currentState = WAITING_FOR_START then
           (if \<not> isGameOver result then startMediaRecorder c1 else c1)
         else c1)"

text \<open>
  \<open>performAnalysis\<close> up to the classification. In remote mode the call is suspended
  at \<open>await analyzeGameFrame\<close> (\<open>Awaiting\<close>); in local mode it runs to its end.
\<close>

datatype Completion = Returned Recorder | Awaiting Recorder

definition performAnalysis :: "Env \<Rightarrow> Recorder \<Rightarrow> Completion" where
  "performAnalysis env c =
     (if \<not> videoEl env \<or> \<not> canvasEl env \<or> stateRef c = ANALYZING then Returned c
      else case context2d env of
             None \<Rightarrow> Returned c
           | Some ctx \<Rightarrow>
               if mode c = GEMINI then Awaiting (c\<lparr>inFlight := inFlight c + 1\<rparr>)
               else Returned (applyResult env (analyzeGameFrameLocally ctx 640 360) c))"

definition interval_of :: "DetectionMode \<Rightarrow> nat" where
  "interval_of m = (if m = LOCAL then LOCAL_INTERVAL_MS else BASE_INTERVAL_MS)"

text \<open>\<open>runAnalysisLoop\<close>, called by the timer.\<close>

definition runAnalysisLoop :: "Env \<Rightarrow> Recorder \<Rightarrow> Recorder" where
  "runAnalysisLoop env c =
     (if streamRef c \<noteq> Some True then c
      else let interval = interval_of (mode c)
           in if hidden env then scheduleNextAnalysis (interval * 2) c
              else case performAnalysis env c of
                     Returned c1 \<Rightarrow> scheduleNextAnalysis interval (c1\<lparr>isRateLimited := False\<rparr>)
                   | Awaiting c1 \<Rightarrow> c1)"

text \<open>
  What runs when the remote classifier settles: the rest of \<open>performAnalysis\<close> and of
  \<open>runAnalysisLoop\<close>, or the \<open>catch\<close> of \<open>runAnalysisLoop\<close>.
\<close>

definition isQuotaError :: "string option \<Rightarrow> bool" where
  "isQuotaError message =
     (case message of
        None \<Rightarrow> False
      | Some m \<Rightarrow> includes_str m ''429'' \<or> includes_str m ''RESOURCE_EXHAUSTED'')"

definition resumeAnalysisLoop :: "Outcome \<Rightarrow> Env \<Rightarrow> Recorder \<Rightarrow> Recorder" where
  "resumeAnalysisLoop outcome env c =
     (let interval = interval_of (mode c)
      in case outcome of
           Resolved result \<Rightarrow>
             scheduleNextAnalysis interval ((applyResult env result c)\<lparr>isRateLimited := False\<rparr>)
         | Rejected message \<Rightarrow>
             if isQuotaError message \<and> mode c = GEMINI
             then scheduleNextAnalysis ERROR_BACKOFF_MS (c\<lparr>isRateLimited := True\<rparr>)
             else scheduleNextAnalysis interval c)"

subsection \<open>Tasks of the event loop\<close>

text \<open>
  Each task runs to its end before the next one starts. \<open>StartCapture\<close> is offered
  only while no stream is attached; \<open>StreamInactive\<close> is the browser ending the tracks
  of the stream.
\<close>

datatype Event =
    StartCapture CaptureOutcome
  | StopSession
  | StreamInactive
  | TimerFired Env
  | ClassifierSettled Outcome Env
  | RecorderStopped Env
  | DataAvailable Blob

fun step :: "Event \<Rightarrow> Recorder \<Rightarrow> Recorder" where
  "step (StartCapture outcome) c = (if streamRef c = None then startCapture outcome c else c)"
| "step StopSession c = stopSession c"
| "step StreamInactive c = c\<lparr>streamRef := map_option (\<lambda>a. False) (streamRef c)\<rparr>"
| "step (TimerFired env) c =
     (case timeoutRef c of
        None \<Rightarrow> c
      | Some delay \<Rightarrow> runAnalysisLoop env (c\<lparr>timeoutRef := None\<rparr>))"
| "step (ClassifierSettled outcome env) c =
     (if inFlight c = 0 then c
      else resumeAnalysisLoop outcome env (c\<lparr>inFlight := inFlight c - 1\<rparr>))"
| "step (RecorderStopped env) c = onstop env c"
| "step (DataAvailable data) c = ondataavailable data c"

fun run :: "Event list \<Rightarrow> Recorder \<Rightarrow> Recorder" where
  "run [] c = c"
| "run (e # es) c = run es (step e c)"

text \<open>The component as mounted, in the given detection mode.\<close>

definition initial :: "DetectionMode \<Rightarrow> Recorder" where
  "initial m =
     \<lparr>mode = m, stateRef = IDLE, streamRef = None, isRateLimited = False,
      lastAnalysis = None, errorMsg = None, timeoutRef = None, mediaRecorderRef = None,
      chunksRef = [], awaitingStop = [], inFlight = 0, history = []\<rparr>"

subsection \<open>Kinds of task\<close>

text \<open>A tick: the timer firing, or the remote classification of a tick settling.\<close>

fun isTick :: "Event \<Rightarrow> bool" where
  "isTick (TimerFired env) = True"
| "isTick (ClassifierSettled outcome env) = True"
| "isTick e = False"

text \<open>A tick whose classification, if it makes one, reports a finished game or fails.\<close>

fun gameOverTick :: "DetectionMode \<Rightarrow> Event \<Rightarrow> bool" where
  "gameOverTick m (TimerFired env) =
     (m = GEMINI \<or>
      (case context2d env of
         None \<Rightarrow> True
       | Some ctx \<Rightarrow> isGameOver (analyzeGameFrameLocally ctx 640 360)))"
| "gameOverTick m (ClassifierSettled (Resolved result) env) = isGameOver result"
| "gameOverTick m (ClassifierSettled (Rejected message) env) = True"
| "gameOverTick m e = False"

text \<open>The timer firing while the document is hidden.\<close>

fun hiddenTick :: "Event \<Rightarrow> bool" where
  "hiddenTick (TimerFired env) = hidden env"
| "hiddenTick e = False"

text \<open>
  The start of a capture.
\<close>

fun isStartCapture :: "Event \<Rightarrow> bool" where
  "isStartCapture (StartCapture outcome) = True"
| "isStartCapture e = False"

text \<open>
  The task \<open>e\<close>, run in state \<open>c\<close>, is a tick that gets the classification result
  \<open>r\<close>: in remote mode the classification in flight resolves with \<open>r\<close>; in local mode
  the timer fires on an active stream and a visible document, the guards of
  \<open>performAnalysis\<close> pass and the local classifier returns \<open>r\<close> on the sampled frame.
\<close>

fun delivers :: "Event \<Rightarrow> Recorder \<Rightarrow> AnalysisResult \<Rightarrow> bool" where
  "delivers (ClassifierSettled (Resolved result) env) c r = (0 < inFlight c \<and> result = r)"
| "delivers (TimerFired env) c r =
     (mode c = LOCAL \<and> timeoutRef c \<noteq> None \<and> streamRef c = Some True \<and> \<not> hidden env \<and>
      videoEl env \<and> canvasEl env \<and> stateRef c \<noteq> ANALYZING \<and>
      (case context2d env of
         None \<Rightarrow> False
       | Some ctx \<Rightarrow> analyzeGameFrameLocally ctx 640 360 = r))"
| "delivers e c r = False"

text \<open>
  A session in good order: a stream is attached exactly when the state is not
  \<open>IDLE\<close>, the recorder records exactly in \<open>RECORDING\<close>, and a flush is pending
  exactly in \<open>ANALYZING\<close>, never more than one.
\<close>

definition wellFormed :: "Recorder \<Rightarrow> bool" where
  "wellFormed c =
     ((streamRef c = None) = (stateRef c = IDLE) \<and>
      (mediaRecorderRef c = Some recording) = (stateRef c = RECORDING) \<and>
      (awaitingStop c \<noteq> []) = (stateRef c = ANALYZING) \<and>
      length (awaitingStop c) \<le> 1)"

text \<open>
  Without a stream the state is \<open>IDLE\<close>, or \<open>WAITING_FOR_START\<close> once a pending flush
  has completed, and it stays so until a capture is started.
\<close>

definition stopped :: "Recorder \<Rightarrow> bool" where
  "stopped c = (streamRef c = None \<and> (stateRef c = IDLE \<or> stateRef c = WAITING_FOR_START))"

section \<open>Sample inputs\<close>

text \<open>
  A strip row of ten blue and ten green pixels, the frame of 360 such rows, a black
  frame of the same size, and contexts serving a fixed frame or throwing.
\<close>

definition mixedRow :: "8 word list" where
  "mixedRow = concat (replicate 10 [66, 133, 244, 255]) @ concat (replicate 10 [52, 168, 83, 255])"

definition endScreen :: "8 word list" where
  "endScreen = concat (replicate 360 mixedRow)"

definition blackFrame :: "8 word list" where
  "blackFrame = replicate 28800 0"

definition servingCtx :: "8 word list \<Rightarrow> CanvasRenderingContext2D" where
  "servingCtx frameData = \<lparr>getImageData = (\<lambda>sx sy sw sh. Inr frameData)\<rparr>"

definition throwingCtx :: CanvasRenderingContext2D where
  "throwingCtx = \<lparr>getImageData = (\<lambda>sx sy sw sh. Inl ''InvalidStateError'')\<rparr>"

text \<open>Classification results, and what a task finds in the browser.\<close>

definition gameOver :: "int option \<Rightarrow> AnalysisResult" where
  "gameOver s = \<lparr>isGameOver = True, score = s, confidence = 1\<rparr>"

definition playing :: AnalysisResult where
  "playing = \<lparr>isGameOver = False, score = Some 0, confidence = 1\<rparr>"

definition visibleEnv :: Env where
  "visibleEnv =
     \<lparr>hidden = False, videoEl = True, canvasEl = True, context2d = Some throwingCtx,
      dataURL = ''data:image/png;base64,iVBORw0KGgo='', randomId = ''k3j9x0q2a'',
      now = 1700000000000\<rparr>"

definition hiddenEnv :: Env where
  "hiddenEnv = visibleEnv\<lparr>hidden := True\<rparr>"

text \<open>
  The browser showing the end screen to the sampler.
\<close>

definition endScreenEnv :: Env where
  "endScreenEnv = visibleEnv\<lparr>context2d := Some (servingCtx endScreen)\<rparr>"

text \<open>
  A remote-mode session that has started recording: capture granted, a first tick
  whose classification reports a running game, one chunk of data.
\<close>

definition recordingSession :: Recorder where
  "recordingSession =
     run [StartCapture Granted, TimerFired visibleEnv,
          ClassifierSettled (Resolved playing) visibleEnv, DataAvailable [1, 2, 3]]
       (initial GEMINI)"

text \<open>The same session with the next classification in flight.\<close>

definition classifyingSession :: Recorder where
  "classifyingSession = step (TimerFired visibleEnv) recordingSession"

text \<open>
  Further stages of that session: right after the capture is granted, after a
  game-over result with score 50 (the flush pending), and after the stop event.
\<close>

definition monitoringSession :: Recorder where
  "monitoringSession = step (StartCapture Granted) (initial GEMINI)"

definition analyzingSession :: Recorder where
  "analyzingSession =
     step (ClassifierSettled (Resolved (gameOver (Some 50))) visibleEnv) classifyingSession"

definition waitingSession :: Recorder where
  "waitingSession = step (RecorderStopped visibleEnv) analyzingSession"

text \<open>
  The monitoring and the waiting session with a classification in flight.
\<close>

definition monitoringInFlight :: Recorder where
  "monitoringInFlight = step (TimerFired visibleEnv) monitoringSession"

definition waitingInFlight :: Recorder where
  "waitingInFlight = step (TimerFired visibleEnv) waitingSession"

text \<open>
  A local-mode session that has started recording: capture granted, a first tick on a
  frame that cannot be read (a negative result), one chunk of data.
\<close>

definition localSession :: Recorder where
  "localSession =
     run [StartCapture Granted, TimerFired visibleEnv, DataAvailable [1, 2, 3]] (initial LOCAL)"

section \<open>Properties of the local classifier\<close>

lemma sqrt_less_70: "(sqrt (real_of_int n) < 70) = (n < 4900)"
proof -
  have "sqrt ((70::real)\<^sup>2) = 70"
    by simp
  then have "(sqrt (real_of_int n) < 70) = (real_of_int n < 70\<^sup>2)"
    using real_sqrt_less_iff [of "real_of_int n" "70\<^sup>2"] by simp
  also have "\<dots> = (real_of_int n < real_of_int 4900)"
    by simp
  also have "\<dots> = (n < 4900)"
    by (rule of_int_less_iff)
  finally show ?thesis .
qed

lemma colorMatch_int:
  "colorMatch (Some r) (Some g) (Some b) target =
     ((r - fst target)\<^sup>2 + (g - fst (snd target))\<^sup>2 + (b - snd (snd target))\<^sup>2 < 4900)"
  by (simp add: colorMatch_def COLOR_TOLERANCE_def sqrt_less_70 del: of_int_add of_int_power of_int_diff)

text \<open>The same test without the square root, which also serves to evaluate it.\<close>

lemma colorMatch_spec [code]: "colorMatch r g b target = spec_matches target (r, g, b)"
  by (cases r; cases g; cases b)
    (simp_all add: colorMatch_int spec_matches_def, simp_all add: colorMatch_def)

lemma isWhiteish_spec: "isWhiteish r g b = spec_white (r, g, b)"
  by (cases r; cases g; cases b) (simp_all add: isWhiteish_def spec_white_def)

text \<open>The inner loop counts the matching pixels of the row.\<close>

lemma rowLoop_count:
  "rowLoop frameData y x (cb, cg, cw) =
     (cb + length (filter (\<lambda>x. spec_matches (66, 133, 244) (pixel frameData y x)) [x..<20]),
      cg + length (filter (\<lambda>x. spec_matches (52, 168, 83) (pixel frameData y x)) [x..<20]),
      cw + length (filter (\<lambda>x. spec_white (pixel frameData y x)) [x..<20]))"
proof (induction frameData y x "(cb, cg, cw)" arbitrary: cb cg cw rule: rowLoop.induct)
  case (1 frameData y x rowBlueCount rowGreenCount rowWhiteCount)
  show ?case
  proof (cases "x < 20")
    case True
    then have upt: "[x..<20] = x # [x + 1..<20]"
      by (simp add: upt_conv_Cons)
    from True have lt: "x < scanWidth"
      by (simp add: scanWidth_def)
    show ?thesis
      apply (subst rowLoop.simps)
      apply (simp only: lt if_True Let_def)
      apply (subst "1.hyps" [OF lt refl refl refl refl])
      apply (simp add: upt colorMatch_spec isWhiteish_spec pixel_def TARGET_BLUE_def
          TARGET_GREEN_def scanWidth_def del: upt_Suc)
      done
  next
    case False
    then show ?thesis
      by (simp add: scanWidth_def)
  qed
qed

lemma rowLoop_spec:
  "rowLoop frameData y 0 (0, 0, 0) =
     (spec_count (spec_matches (66, 133, 244)) frameData y,
      spec_count (spec_matches (52, 168, 83)) frameData y,
      spec_count spec_white frameData y)"
  by (simp add: rowLoop_count spec_count_def del: rowLoop.simps)

text \<open>The comparisons on reals, in integers.\<close>

lemma real_nat_less: "(real a < real b) = (a < b)"
  by simp

lemma below_pct:
  assumes "y < height"
  shows "(real y / real height < real p / 100) = (100 * y < p * height)"
proof -
  from assms have h: "0 < real height"
    by simp
  have "(real y / real height < real p / 100) = (real y * 100 < real p * real height)"
    using h by (simp add: field_simps)
  also have "\<dots> = (real (100 * y) < real (p * height))"
    by (simp add: mult.commute)
  also have "\<dots> = (100 * y < p * height)"
    by (rule real_nat_less)
  finally show ?thesis .
qed

lemma above_pct:
  assumes "y < height"
  shows "(real y / real height > real p / 100) = (p * height < 100 * y)"
proof -
  from assms have h: "0 < real height"
    by simp
  have "(real y / real height > real p / 100) = (real p * real height < real y * 100)"
    using h by (simp add: field_simps)
  also have "\<dots> = (real (p * height) < real (100 * y))"
    by (simp add: mult.commute)
  also have "\<dots> = (p * height < 100 * y)"
    by (rule real_nat_less)
  finally show ?thesis .
qed

lemma over_threshold: "(real n > real scanWidth * 0.4) = (100 * n > 40 * 20)"
proof -
  have "(real n > real scanWidth * 0.4) = (real 8 < real n)"
    by (simp add: scanWidth_def)
  also have "\<dots> = (8 < n)"
    by (rule real_nat_less)
  finally show ?thesis
    by auto
qed

lemma over_two_pct: "(real n > real height * 0.02) = (100 * n > 2 * height)"
proof -
  have "(real n > real height * 0.02) = (real (2 * height) < real (100 * n))"
    by (simp add: field_simps)
  also have "\<dots> = (2 * height < 100 * n)"
    by (rule real_nat_less)
  finally show ?thesis .
qed

lemma band_40: "y < height \<Longrightarrow> (real y / real height < 0.40) = (100 * y < 40 * height)"
  using below_pct [of y height 40] by simp

lemma band_30: "y < height \<Longrightarrow> (real y / real height > 0.30) = (30 * height < 100 * y)"
  using above_pct [of y height 30] by simp

lemma band_70: "y < height \<Longrightarrow> (real y / real height < 0.70) = (100 * y < 70 * height)"
  using below_pct [of y height 70] by simp

lemma band_50: "y < height \<Longrightarrow> (real y / real height > 0.50) = (50 * height < 100 * y)"
  using above_pct [of y height 50] by simp

lemma band_85: "y < height \<Longrightarrow> (real y / real height < 0.85) = (100 * y < 85 * height)"
  using below_pct [of y height 85] by simp

text \<open>The outer loop counts the rows of each kind.\<close>

lemma frameLoop_count:
  "frameLoop frameData height y (nb, ng, nw) =
     (nb + length (filter (spec_blueRow frameData height) [y..<height]),
      ng + length (filter (spec_greenRow frameData height) [y..<height]),
      nw + length (filter (spec_whiteRow frameData height) [y..<height]))"
proof (induction frameData height y "(nb, ng, nw)" arbitrary: nb ng nw rule: frameLoop.induct)
  case (1 frameData height y blueRows greenRows whiteRows)
  show ?case
  proof (cases "y < height")
    case True
    then have upt: "[y..<height] = y # [y + 1..<height]"
      by (simp add: upt_conv_Cons)
    note bands = band_40 [OF True] band_30 [OF True] band_70 [OF True] band_50 [OF True]
      band_85 [OF True]
    show ?thesis
      apply (subst frameLoop.simps)
      apply (simp only: True if_True Let_def rowLoop_spec prod.case)
      apply (subst "1.hyps" [OF True rowLoop_spec [symmetric] refl refl refl refl])
      apply (simp only: upt bands over_threshold)
      apply (simp add: spec_blueRow_def spec_greenRow_def spec_whiteRow_def)
      done
  next
    case False
    then show ?thesis
      by simp
  qed
qed

lemma frameLoop_spec:
  "frameLoop frameData height 0 (0, 0, 0) =
     (spec_rows (spec_blueRow frameData height) height,
      spec_rows (spec_greenRow frameData height) height,
      spec_rows (spec_whiteRow frameData height) height)"
  by (simp add: frameLoop_count spec_rows_def del: frameLoop.simps)

lemma analyzeGameFrameLocally_Inr:
  assumes "getImageData ctx (max 0 (int (width div 2) - 10)) 0 20 height = Inr frameData"
  shows "analyzeGameFrameLocally ctx width height = spec_classify frameData height"
proof -
  have sx: "max 0 (int (width div 2) - int (scanWidth div 2)) = max 0 (int (width div 2) - 10)"
    by (simp add: scanWidth_def)
  show ?thesis
    apply (simp only: analyzeGameFrameLocally_def Let_def sx)
    apply (simp only: scanWidth_def assms sum.case frameLoop_spec prod.case over_two_pct)
    apply (simp add: spec_classify_def spec_isGameOver_def spec_hasRibbon_def
        spec_hasButton_def spec_hasUrlBox_def)
    done
qed

lemma no_blue_no_ribbon:
  assumes "\<forall>y<height. \<forall>x<20. \<not> spec_matches (66, 133, 244) (pixel frameData y x)"
  shows "\<not> spec_hasRibbon frameData height"
proof -
  have "spec_count (spec_matches (66, 133, 244)) frameData y = 0" if "y < height" for y
    using assms that by (simp add: spec_count_def)
  then have "filter (spec_blueRow frameData height) [0..<height] = []"
    by (simp add: spec_blueRow_def filter_empty_conv)
  then show ?thesis
    by (simp add: spec_hasRibbon_def spec_rows_def)
qed

text \<open>
  The sample end screen: every row repeats \<open>mixedRow\<close>, so the counts are those of one row.
\<close>

lemma length_concat_replicate: "length (concat (replicate n row)) = n * length row"
  by (induction n) simp_all

lemma nth_concat_replicate:
  assumes "j < length row" and "y < n"
  shows "concat (replicate n row) ! (y * length row + j) = row ! j"
  using assms
proof (induction n arbitrary: y)
  case 0
  then show ?case by simp
next
  case (Suc n)
  show ?case
  proof (cases y)
    case 0
    with Suc.prems show ?thesis
      by (simp add: nth_append)
  next
    case (Suc y')
    with Suc.prems Suc.IH [of y'] show ?thesis
      by (simp add: nth_append)
  qed
qed

lemma length_mixedRow: "length mixedRow = 80"
  by (simp add: mixedRow_def length_concat_replicate)

lemma at_index_endScreen:
  assumes "y < 360" and "j < 80"
  shows "at_index endScreen (y * 80 + j) = at_index mixedRow j"
proof -
  from assms have "y * 80 + j < 360 * 80"
    by simp
  then have "y * 80 + j < length endScreen"
    by (simp add: endScreen_def length_concat_replicate length_mixedRow)
  moreover have "endScreen ! (y * 80 + j) = mixedRow ! j"
    using nth_concat_replicate [of j mixedRow y 360] assms
    by (simp add: endScreen_def length_mixedRow)
  ultimately show ?thesis
    using assms by (simp add: at_index_def length_mixedRow)
qed

lemma pixel_endScreen:
  assumes "y < 360" and "x < 20"
  shows "pixel endScreen y x = pixel mixedRow 0 x"
proof -
  have e: "at_index endScreen ((y * 20 + x) * 4 + k) = at_index mixedRow ((0 * 20 + x) * 4 + k)"
    if "k < 4" for k
  proof -
    have a: "(y * 20 + x) * 4 + k = y * 80 + (x * 4 + k)"
      by simp
    have b: "(0 * 20 + x) * 4 + k = x * 4 + k"
      by simp
    from assms(2) that have c: "x * 4 + k < 80"
      by simp
    show ?thesis
      unfolding a b by (rule at_index_endScreen [OF assms(1) c])
  qed
  have e0: "at_index endScreen ((y * 20 + x) * 4) = at_index mixedRow ((0 * 20 + x) * 4)"
    using e [of 0] by simp
  have e1: "at_index endScreen ((y * 20 + x) * 4 + 1) = at_index mixedRow ((0 * 20 + x) * 4 + 1)"
    by (rule e) simp
  have e2: "at_index endScreen ((y * 20 + x) * 4 + 2) = at_index mixedRow ((0 * 20 + x) * 4 + 2)"
    by (rule e) simp
  show ?thesis
    unfolding pixel_def by (simp only: e0 e1 e2)
qed

lemma spec_count_endScreen:
  assumes "y < 360"
  shows "spec_count P endScreen y = spec_count P mixedRow 0"
proof -
  have "filter (\<lambda>x. P (pixel endScreen y x)) [0..<20] =
      filter (\<lambda>x. P (pixel mixedRow 0 x)) [0..<20]"
    by (rule filter_cong) (simp_all add: pixel_endScreen [OF assms])
  then show ?thesis
    by (simp add: spec_count_def)
qed

lemma mixedRow_counts:
  "spec_count (spec_matches (66, 133, 244)) mixedRow 0 = 10"
  "spec_count (spec_matches (52, 168, 83)) mixedRow 0 = 10"
  by code_simp+

lemma filter_below_upt:
  assumes "k \<le> n"
  shows "filter (\<lambda>y. y < k) [0..<n] = [0..<k]"
proof -
  from assms have "[0..<n] = [0..<k] @ [k..<n]"
    using upt_add_eq_append [of 0 k "n - k"] by simp
  then show ?thesis
    by simp
qed

lemma filter_between_upt:
  assumes "a < b" and "b \<le> n"
  shows "filter (\<lambda>y. a < y \<and> y < b) [0..<n] = [Suc a..<b]"
proof -
  from assms have "[0..<n] = [0..<Suc a] @ [Suc a..<b] @ [b..<n]"
    using upt_add_eq_append [of 0 "Suc a" "n - Suc a"]
      upt_add_eq_append [of "Suc a" b "n - b"] by simp
  then show ?thesis
    by simp
qed

lemma endScreen_rows:
  "spec_rows (spec_blueRow endScreen 360) 360 = 144"
  "spec_rows (spec_greenRow endScreen 360) 360 = 143"
proof -
  have "filter (spec_blueRow endScreen 360) [0..<360] = filter (\<lambda>y. y < 144) [0..<360]"
    by (rule filter_cong)
      (auto simp add: spec_blueRow_def spec_count_endScreen mixedRow_counts)
  then show "spec_rows (spec_blueRow endScreen 360) 360 = 144"
    by (simp add: spec_rows_def filter_below_upt)
  have "filter (spec_greenRow endScreen 360) [0..<360] =
      filter (\<lambda>y. 108 < y \<and> y < 252) [0..<360]"
    by (rule filter_cong)
      (auto simp add: spec_greenRow_def spec_count_endScreen mixedRow_counts)
  then show "spec_rows (spec_greenRow endScreen 360) 360 = 143"
    by (simp add: spec_rows_def filter_between_upt)
qed

lemma endScreen_over:
  "analyzeGameFrameLocally (servingCtx endScreen) 640 360 =
     \<lparr>isGameOver = True, score = None, confidence = 1\<rparr>"
proof -
  have "getImageData (servingCtx endScreen) (max 0 (int (640 div 2) - 10)) 0 20 360 =
      Inr endScreen"
    by (simp add: servingCtx_def)
  from analyzeGameFrameLocally_Inr [OF this] show ?thesis
    by (simp add: spec_classify_def spec_isGameOver_def spec_hasRibbon_def
        spec_hasButton_def endScreen_rows)
qed

section \<open>Claims about the local classifier\<close>

text \<open>
  Claim C5. When \<open>getImageData\<close> serves the strip, the classifier returns
  \<open>isGameOver = hasRibbon \<and> (hasButton \<or> hasUrlBox)\<close>, the three flags as the
  specification words them: a row is blue when more than 40% of its 20 pixels are within
  distance 70 of the reference blue and the row lies in the top 40% of the height,
  green under the same threshold in the 30-70% band, white (all channels above 220) in
  the 50-85% band, and each flag needs more than 2% of the height in rows. The score is
  none and the confidence 1 when the game is over, else 0. A strip with no blue pixel
  yields \<open>isGameOver = False\<close>. Every comparison is strict, as in the source.
\<close>

theorem local_classifier_decision:
  assumes "getImageData ctx (max 0 (int (width div 2) - 10)) 0 20 height = Inr frameData"
  shows "analyzeGameFrameLocally ctx width height =
           \<lparr>isGameOver = spec_hasRibbon frameData height \<and>
                          (spec_hasButton frameData height \<or> spec_hasUrlBox frameData height),
            score = None,
            confidence = (if spec_hasRibbon frameData height \<and>
                             (spec_hasButton frameData height \<or> spec_hasUrlBox frameData height)
                          then 1 else 0)\<rparr>
         \<and> ((\<forall>y<height. \<forall>x<20. \<not> spec_matches (66, 133, 244) (pixel frameData y x)) \<longrightarrow>
              \<not> isGameOver (analyzeGameFrameLocally ctx width height))"
  using analyzeGameFrameLocally_Inr [OF assms] no_blue_no_ribbon [of height frameData]
  by (simp add: spec_classify_def spec_isGameOver_def)

theorem local_classifier_decision_witness:
  "analyzeGameFrameLocally (servingCtx endScreen) 640 360 =
     \<lparr>isGameOver = True, score = None, confidence = 1\<rparr>
   \<and> analyzeGameFrameLocally (servingCtx blackFrame) 640 360 =
     \<lparr>isGameOver = False, score = None, confidence = 0\<rparr>"
proof -
  have served: "getImageData (servingCtx d) (max 0 (int (640 div 2) - 10)) 0 20 360 = Inr d"
    for d
    by (simp add: servingCtx_def)
  have ribbon: "spec_hasRibbon endScreen 360"
    and button: "spec_hasButton endScreen 360"
    by (simp_all add: spec_hasRibbon_def spec_hasButton_def endScreen_rows)
  have black: "\<forall>y<360. \<forall>x<20. \<not> spec_matches (66, 133, 244) (pixel blackFrame y x)"
    by (auto simp add: pixel_def at_index_def blackFrame_def spec_matches_def)
  from local_classifier_decision [OF served, of endScreen] ribbon button
  have pos: "analyzeGameFrameLocally (servingCtx endScreen) 640 360 =
     \<lparr>isGameOver = True, score = None, confidence = 1\<rparr>"
    by simp
  let ?G = "spec_hasRibbon blackFrame 360 \<and>
            (spec_hasButton blackFrame 360 \<or> spec_hasUrlBox blackFrame 360)"
  from local_classifier_decision [OF served, of blackFrame] black
  have eq: "analyzeGameFrameLocally (servingCtx blackFrame) 640 360 =
      \<lparr>isGameOver = ?G, score = None, confidence = (if ?G then 1 else 0)\<rparr>"
    and no: "\<not> isGameOver (analyzeGameFrameLocally (servingCtx blackFrame) 640 360)"
    by blast+
  from no have "\<not> ?G"
    by (subst (asm) eq) simp
  with eq have neg: "analyzeGameFrameLocally (servingCtx blackFrame) 640 360 =
     \<lparr>isGameOver = False, score = None, confidence = 0\<rparr>"
    by simp
  from pos neg show ?thesis
    by blast
qed

text \<open>
  Claim C9. When reading the pixels throws, the classifier returns
  \<open>{isGameOver: false, score: null, confidence: 0}\<close>: the error goes no further.
\<close>

theorem local_classifier_failure:
  assumes "getImageData ctx (max 0 (int (width div 2) - 10)) 0 20 height = Inl err"
  shows "analyzeGameFrameLocally ctx width height =
           \<lparr>isGameOver = False, score = None, confidence = 0\<rparr>"
proof -
  have sx: "max 0 (int (width div 2) - int (scanWidth div 2)) = max 0 (int (width div 2) - 10)"
    by (simp add: scanWidth_def)
  show ?thesis
    by (simp only: analyzeGameFrameLocally_def Let_def sx)
      (simp add: scanWidth_def assms)
qed

theorem local_classifier_failure_witness:
  "getImageData throwingCtx (max 0 (int (640 div 2) - 10)) 0 20 360 = Inl ''InvalidStateError''
   \<and> analyzeGameFrameLocally throwingCtx 640 360 =
       \<lparr>isGameOver = False, score = None, confidence = 0\<rparr>"
proof -
  have thrown: "getImageData throwingCtx (max 0 (int (640 div 2) - 10)) 0 20 360 =
      Inl ''InvalidStateError''"
    by (simp add: throwingCtx_def)
  from thrown local_classifier_failure [OF thrown] show ?thesis
    by simp
qed

section \<open>Properties of the recorder\<close>

lemmas recorder_defs =
  updateState_def scheduleNextAnalysis_def startCapture_def stopSession_def
  startMediaRecorder_def ondataavailable_def finishGameOver_def handleGameOver_def
  onstop_def applyResult_def performAnalysis_def interval_of_def runAnalysisLoop_def
  resumeAnalysisLoop_def TARGET_SCORE_def BASE_INTERVAL_MS_def LOCAL_INTERVAL_MS_def
  ERROR_BACKOFF_MS_def

lemma concat_nonempty: "concat (filter (\<lambda>b. b \<noteq> []) bs) = concat bs"
  by (induction bs) auto

lemma run_append: "run (es @ fs) c = run fs (run es c)"
  by (induction es arbitrary: c) auto

lemma run_DataAvailable:
  "mediaRecorderRef c \<noteq> None \<Longrightarrow>
   run (map DataAvailable bs) c = c\<lparr>chunksRef := chunksRef c @ filter (\<lambda>b. b \<noteq> []) bs\<rparr>"
proof (induction bs arbitrary: c)
  case Nil
  then show ?case by simp
next
  case (Cons b bs)
  then show ?case
    by (cases "b = []") (simp_all add: ondataavailable_def)
qed

text \<open>Applying a game-over result while recording with an open buffer.\<close>

lemma applyResult_recording_over:
  assumes "stateRef c = RECORDING" and "mediaRecorderRef c = Some recording"
    and "isGameOver r"
  shows "applyResult env r c =
           c\<lparr>lastAnalysis := Some (True, score r), stateRef := ANALYZING,
              mediaRecorderRef := Some inactive,
              awaitingStop := awaitingStop c @ [(score r, dataURL env)]\<rparr>"
  using assms by (simp add: applyResult_def handleGameOver_def updateState_def Let_def)

text \<open>
  In \<open>IDLE\<close> and in \<open>ANALYZING\<close> the dispatch matches no branch.
\<close>

lemma applyResult_other_states:
  assumes "stateRef c = IDLE \<or> stateRef c = ANALYZING"
  shows "applyResult env r c = c\<lparr>lastAnalysis := Some (isGameOver r, score r)\<rparr>"
  using assms by (auto simp add: applyResult_def Let_def)

text \<open>The dispatch of \<open>performAnalysis\<close>, state by state.\<close>

lemma applyResult_transitions:
  assumes "streamRef c \<noteq> None"
    and "(mediaRecorderRef c = Some recording) = (stateRef c = RECORDING)"
    and "awaitingStop c = []"
  shows "stateRef c = MONITORING \<Longrightarrow> \<not> isGameOver r \<Longrightarrow>
            applyResult env r c =
              c\<lparr>lastAnalysis := Some (False, score r), chunksRef := [],
                 mediaRecorderRef := Some recording, stateRef := RECORDING\<rparr>"
    and "stateRef c = MONITORING \<Longrightarrow> isGameOver r \<Longrightarrow>
            applyResult env r c =
              c\<lparr>lastAnalysis := Some (True, score r), stateRef := WAITING_FOR_START\<rparr>"
    and "stateRef c = RECORDING \<Longrightarrow> \<not> isGameOver r \<Longrightarrow>
            applyResult env r c = c\<lparr>lastAnalysis := Some (False, score r)\<rparr>"
    and "stateRef c = RECORDING \<Longrightarrow> isGameOver r \<Longrightarrow>
            applyResult env r c =
              c\<lparr>lastAnalysis := Some (True, score r), stateRef := ANALYZING,
                 mediaRecorderRef := Some inactive,
                 awaitingStop := [(score r, dataURL env)]\<rparr>"
    and "stateRef c = WAITING_FOR_START \<Longrightarrow> \<not> isGameOver r \<Longrightarrow>
            applyResult env r c =
              c\<lparr>lastAnalysis := Some (False, score r), chunksRef := [],
                 mediaRecorderRef := Some recording, stateRef := RECORDING\<rparr>"
    and "stateRef c = WAITING_FOR_START \<Longrightarrow> isGameOver r \<Longrightarrow>
            applyResult env r c = c\<lparr>lastAnalysis := Some (True, score r)\<rparr>"
  using assms
  by (auto simp add: applyResult_def startMediaRecorder_def handleGameOver_def updateState_def
      Let_def)

text \<open>The fields \<open>applyResult\<close> neither reads nor writes.\<close>

lemma applyResult_frame:
  "applyResult env r (c\<lparr>timeoutRef := t, inFlight := n\<rparr>) =
     (applyResult env r c)\<lparr>timeoutRef := t, inFlight := n\<rparr>"
  by (simp add: applyResult_def startMediaRecorder_def handleGameOver_def finishGameOver_def
      updateState_def Let_def)

text \<open>
  The sample sessions, evaluated.
\<close>

lemma monitoringSession_eval:
  "monitoringSession =
     \<lparr>mode = GEMINI, stateRef = MONITORING, streamRef = Some True, isRateLimited = False,
      lastAnalysis = None, errorMsg = None, timeoutRef = Some 1000,
      mediaRecorderRef = None, chunksRef = [], awaitingStop = [],
      inFlight = 0, history = []\<rparr>"
  by (simp add: monitoringSession_def initial_def recorder_defs Let_def)

lemma recordingSession_eval:
  "recordingSession =
     \<lparr>mode = GEMINI, stateRef = RECORDING, streamRef = Some True, isRateLimited = False,
      lastAnalysis = Some (False, Some 0), errorMsg = None, timeoutRef = Some 4000,
      mediaRecorderRef = Some recording, chunksRef = [[1, 2, 3]], awaitingStop = [],
      inFlight = 0, history = []\<rparr>"
  by (simp add: recordingSession_def initial_def recorder_defs visibleEnv_def playing_def
      Let_def)

lemma classifyingSession_eval:
  "classifyingSession =
     \<lparr>mode = GEMINI, stateRef = RECORDING, streamRef = Some True, isRateLimited = False,
      lastAnalysis = Some (False, Some 0), errorMsg = None, timeoutRef = None,
      mediaRecorderRef = Some recording, chunksRef = [[1, 2, 3]], awaitingStop = [],
      inFlight = 1, history = []\<rparr>"
  by (simp add: classifyingSession_def recordingSession_eval recorder_defs visibleEnv_def
      throwingCtx_def Let_def)

lemma analyzingSession_eval:
  "analyzingSession =
     \<lparr>mode = GEMINI, stateRef = ANALYZING, streamRef = Some True, isRateLimited = False,
      lastAnalysis = Some (True, Some 50), errorMsg = None, timeoutRef = Some 4000,
      mediaRecorderRef = Some inactive, chunksRef = [[1, 2, 3]],
      awaitingStop = [(Some 50, ''data:image/png;base64,iVBORw0KGgo='')],
      inFlight = 0, history = []\<rparr>"
  by (simp add: analyzingSession_def classifyingSession_eval recorder_defs visibleEnv_def
      gameOver_def Let_def)

lemma waitingSession_eval:
  "waitingSession =
     \<lparr>mode = GEMINI, stateRef = WAITING_FOR_START, streamRef = Some True,
      isRateLimited = False, lastAnalysis = Some (True, Some 50), errorMsg = None,
      timeoutRef = Some 4000, mediaRecorderRef = Some inactive, chunksRef = [],
      awaitingStop = [], inFlight = 0,
      history = [\<lparr>rec_id = ''k3j9x0q2a'', rec_timestamp = 1700000000000,
                  rec_score = Some 50, rec_status = saved, videoBlob = Some [1, 2, 3],
                  thumbnail = Some ''data:image/png;base64,iVBORw0KGgo=''\<rparr>]\<rparr>"
  by (simp add: waitingSession_def analyzingSession_eval recorder_defs visibleEnv_def Let_def)

lemma monitoringInFlight_eval:
  "monitoringInFlight = monitoringSession\<lparr>timeoutRef := None, inFlight := 1\<rparr>"
  by (simp add: monitoringInFlight_def monitoringSession_eval recorder_defs visibleEnv_def
      Let_def)

lemma waitingInFlight_eval:
  "waitingInFlight = waitingSession\<lparr>timeoutRef := None, inFlight := 1\<rparr>"
  by (simp add: waitingInFlight_def waitingSession_eval recorder_defs visibleEnv_def Let_def)

lemma localSession_eval:
  "localSession =
     \<lparr>mode = LOCAL, stateRef = RECORDING, streamRef = Some True, isRateLimited = False,
      lastAnalysis = Some (False, None), errorMsg = None, timeoutRef = Some 1000,
      mediaRecorderRef = Some recording, chunksRef = [[1, 2, 3]], awaitingStop = [],
      inFlight = 0, history = []\<rparr>"
proof -
  have "analyzeGameFrameLocally throwingCtx 640 360 =
      \<lparr>isGameOver = False, score = None, confidence = 0\<rparr>"
    by (simp add: analyzeGameFrameLocally_def throwingCtx_def)
  then show ?thesis
    by (simp add: localSession_def initial_def recorder_defs visibleEnv_def Let_def)
qed

text \<open>A tick that fires or settles while the state is Analyzing.\<close>

lemma analyzing_tick:
  assumes "stateRef c = ANALYZING" and "isTick e"
  shows "stateRef (step e c) = ANALYZING \<and> history (step e c) = history c
       \<and> mediaRecorderRef (step e c) = mediaRecorderRef c
       \<and> chunksRef (step e c) = chunksRef c
       \<and> awaitingStop (step e c) = awaitingStop c \<and> mode (step e c) = mode c"
proof (cases e)
  case (TimerFired env)
  with assms show ?thesis
    by (simp add: runAnalysisLoop_def performAnalysis_def scheduleNextAnalysis_def Let_def
        split: option.split)
next
  case (ClassifierSettled outcome env)
  with assms show ?thesis
    by (cases outcome)
      (simp_all add: resumeAnalysisLoop_def applyResult_other_states scheduleNextAnalysis_def
        Let_def)
qed (use assms in simp_all)

lemma analyzing_ticks:
  assumes "stateRef c = ANALYZING" and "\<forall>e\<in>set es. isTick e"
  shows "stateRef (run es c) = ANALYZING \<and> history (run es c) = history c
       \<and> mediaRecorderRef (run es c) = mediaRecorderRef c
       \<and> chunksRef (run es c) = chunksRef c
       \<and> awaitingStop (run es c) = awaitingStop c \<and> mode (run es c) = mode c"
  using assms
proof (induction es arbitrary: c)
  case Nil
  then show ?case by simp
next
  case (Cons e es)
  from Cons.prems have t: "isTick e" and ts: "\<forall>e\<in>set es. isTick e"
    by simp_all
  note one = analyzing_tick [OF Cons.prems(1) t]
  from one have "stateRef (step e c) = ANALYZING"
    by simp
  from Cons.IH [OF this ts] one show ?case
    by simp
qed

text \<open>A tick that reports a finished game, or fails, while waiting for a restart.\<close>

lemma waiting_tick:
  assumes "stateRef c = WAITING_FOR_START" and "gameOverTick (mode c) e"
  shows "stateRef (step e c) = WAITING_FOR_START \<and> history (step e c) = history c
       \<and> mediaRecorderRef (step e c) = mediaRecorderRef c
       \<and> chunksRef (step e c) = chunksRef c
       \<and> awaitingStop (step e c) = awaitingStop c \<and> mode (step e c) = mode c"
proof (cases e)
  case (TimerFired env)
  with assms show ?thesis
    by (auto simp add: runAnalysisLoop_def performAnalysis_def scheduleNextAnalysis_def
        applyResult_def Let_def split: option.split)
next
  case (ClassifierSettled outcome env)
  with assms show ?thesis
    by (cases outcome)
      (simp_all add: resumeAnalysisLoop_def applyResult_def scheduleNextAnalysis_def Let_def)
qed (use assms in simp_all)

lemma waiting_ticks:
  assumes "stateRef c = WAITING_FOR_START" and "\<forall>e\<in>set es. gameOverTick (mode c) e"
  shows "stateRef (run es c) = WAITING_FOR_START \<and> history (run es c) = history c
       \<and> mediaRecorderRef (run es c) = mediaRecorderRef c
       \<and> chunksRef (run es c) = chunksRef c
       \<and> awaitingStop (run es c) = awaitingStop c"
  using assms
proof (induction es arbitrary: c)
  case Nil
  then show ?case by simp
next
  case (Cons e es)
  from Cons.prems have t: "gameOverTick (mode c) e"
    and ts: "\<forall>e\<in>set es. gameOverTick (mode c) e"
    by simp_all
  note one = waiting_tick [OF Cons.prems(1) t]
  from one have w: "stateRef (step e c) = WAITING_FOR_START"
    and m: "mode (step e c) = mode c"
    by simp_all
  from ts m have "\<forall>e'\<in>set es. gameOverTick (mode (step e c)) e'"
    by simp
  from Cons.IH [OF w this] one show ?case
    by simp
qed

text \<open>A tick that delivers a result applies it and schedules the next tick.\<close>

lemma delivers_step:
  assumes "delivers e c r"
  shows "\<exists>env t n. step e c =
           (applyResult env r c)\<lparr>timeoutRef := t, inFlight := n, isRateLimited := False,
              timeoutRef := Some (interval_of (mode c))\<rparr>
         \<and> (e = TimerFired env \<or> e = ClassifierSettled (Resolved r) env)"
proof (cases e)
  case (TimerFired env)
  with assms obtain ctx where ctx: "context2d env = Some ctx"
    and r: "analyzeGameFrameLocally ctx 640 360 = r"
    by (auto split: option.splits)
  from assms TimerFired ctx r
  have "step e c =
      (applyResult env r c)\<lparr>timeoutRef := None, inFlight := inFlight c,
         isRateLimited := False, timeoutRef := Some (interval_of (mode c))\<rparr>"
    using applyResult_frame [where env = env and r = r and c = c and t = None and n = "inFlight c"]
    by (auto simp add: runAnalysisLoop_def performAnalysis_def scheduleNextAnalysis_def Let_def)
  with TimerFired show ?thesis
    by blast
next
  case (ClassifierSettled outcome env)
  with assms have o: "outcome = Resolved r" and f: "0 < inFlight c"
    by (cases outcome; simp)+
  from f have "step e c =
      (applyResult env r c)\<lparr>timeoutRef := timeoutRef c, inFlight := inFlight c - 1,
         isRateLimited := False, timeoutRef := Some (interval_of (mode c))\<rparr>"
    using applyResult_frame [where env = env and r = r and c = c and t = "timeoutRef c"
        and n = "inFlight c - 1"]
    by (simp add: ClassifierSettled o resumeAnalysisLoop_def scheduleNextAnalysis_def Let_def)
  with ClassifierSettled o show ?thesis
    by blast
qed (use assms in simp_all)

text \<open>A tick that delivers a game-over result while recording with the buffer open.\<close>

lemma delivers_recording_over:
  assumes "delivers e c r" and "stateRef c = RECORDING"
    and "mediaRecorderRef c = Some recording" and "isGameOver r"
  shows "stateRef (step e c) = ANALYZING"
    and "mediaRecorderRef (step e c) = Some inactive"
    and "chunksRef (step e c) = chunksRef c"
    and "map fst (awaitingStop (step e c)) = map fst (awaitingStop c) @ [score r]"
    and "history (step e c) = history c"
    and "timeoutRef (step e c) = Some (interval_of (mode c))"
    and "mode (step e c) = mode c"
proof -
  from delivers_step [OF assms(1)] obtain env t n where
    s: "step e c =
      (applyResult env r c)\<lparr>timeoutRef := t, inFlight := n, isRateLimited := False,
         timeoutRef := Some (interval_of (mode c))\<rparr>"
    by blast
  note a = applyResult_recording_over [OF assms(2,3,4), of env]
  show "stateRef (step e c) = ANALYZING"
    and "mediaRecorderRef (step e c) = Some inactive"
    and "chunksRef (step e c) = chunksRef c"
    and "map fst (awaitingStop (step e c)) = map fst (awaitingStop c) @ [score r]"
    and "history (step e c) = history c"
    and "timeoutRef (step e c) = Some (interval_of (mode c))"
    and "mode (step e c) = mode c"
    unfolding s a by simp_all
qed

lemma endScreenEnv_delivers:
  "delivers (TimerFired endScreenEnv) localSession (gameOver None)"
  by (simp add: endScreenEnv_def visibleEnv_def localSession_eval endScreen_over gameOver_def)

lemma endScreenEnv_gameOverTick: "gameOverTick m (TimerFired endScreenEnv)"
  by (simp add: endScreenEnv_def endScreen_over)

text \<open>
  Good order holds when the component is mounted and every task keeps it, except a
  stop of the session while a flush is pending. It gives the conditions under which the
  transitions are stated below.
\<close>

lemma wellFormed_initial: "wellFormed (initial m)"
  by (simp add: wellFormed_def initial_def)

lemma wellFormed_applyResult:
  assumes "wellFormed c"
  shows "wellFormed (applyResult env r c)"
proof (cases "stateRef c")
  case RECORDING
  with assms show ?thesis
    by (cases "isGameOver r")
      (auto simp add: wellFormed_def applyResult_def handleGameOver_def updateState_def Let_def)
next
  case MONITORING
  with assms show ?thesis
    by (auto simp add: wellFormed_def applyResult_def startMediaRecorder_def updateState_def
        Let_def)
next
  case WAITING_FOR_START
  with assms show ?thesis
    by (auto simp add: wellFormed_def applyResult_def startMediaRecorder_def updateState_def
        Let_def)
next
  case IDLE
  with assms show ?thesis
    by (simp add: applyResult_other_states wellFormed_def)
next
  case ANALYZING
  with assms show ?thesis
    by (simp add: applyResult_other_states wellFormed_def)
qed

lemma wellFormed_fields:
  assumes "wellFormed c"
    and "stateRef c' = stateRef c" and "streamRef c' = streamRef c"
    and "mediaRecorderRef c' = mediaRecorderRef c" and "awaitingStop c' = awaitingStop c"
  shows "wellFormed c'"
  using assms by (simp add: wellFormed_def)

lemma wellFormed_step:
  assumes "wellFormed c" and "e = StopSession \<longrightarrow> stateRef c \<noteq> ANALYZING"
  shows "wellFormed (step e c)"
proof (cases e)
  case (StartCapture outcome)
  with assms(1) show ?thesis
    by (cases outcome)
      (auto simp add: wellFormed_def startCapture_def updateState_def
        scheduleNextAnalysis_def Let_def)
next
  case StopSession
  with assms show ?thesis
    by (auto simp add: wellFormed_def stopSession_def updateState_def Let_def)
next
  case StreamInactive
  with assms(1) show ?thesis
    by (auto simp add: wellFormed_def)
next
  case (TimerFired env)
  have t: "wellFormed (c\<lparr>timeoutRef := None\<rparr>)"
    using assms(1) by (rule wellFormed_fields) simp_all
  have i: "wellFormed (c'\<lparr>inFlight := n\<rparr>)" if "wellFormed c'" for c' n
    using that by (rule wellFormed_fields) simp_all
  have s: "wellFormed (scheduleNextAnalysis d c')" if "wellFormed c'" for c' d
    using that by (rule wellFormed_fields) (simp_all add: scheduleNextAnalysis_def)
  have l: "wellFormed (c'\<lparr>isRateLimited := b\<rparr>)" if "wellFormed c'" for c' b
    using that by (rule wellFormed_fields) simp_all
  show ?thesis
    unfolding TimerFired
    by (auto simp add: runAnalysisLoop_def performAnalysis_def Let_def
        intro!: s l i wellFormed_applyResult t assms(1) split: option.split)
next
  case (ClassifierSettled outcome env)
  have i: "wellFormed (c'\<lparr>inFlight := n\<rparr>)" if "wellFormed c'" for c' n
    using that by (rule wellFormed_fields) simp_all
  have s: "wellFormed (scheduleNextAnalysis d c')" if "wellFormed c'" for c' d
    using that by (rule wellFormed_fields) (simp_all add: scheduleNextAnalysis_def)
  have l: "wellFormed (c'\<lparr>isRateLimited := b\<rparr>)" if "wellFormed c'" for c' b
    using that by (rule wellFormed_fields) simp_all
  show ?thesis
    unfolding ClassifierSettled
    by (cases outcome)
      (auto simp add: resumeAnalysisLoop_def Let_def
        intro!: s l i wellFormed_applyResult assms(1))
next
  case (RecorderStopped env)
  with assms(1) show ?thesis
    by (cases "awaitingStop c")
      (auto simp add: wellFormed_def onstop_def finishGameOver_def updateState_def Let_def)
next
  case (DataAvailable data)
  with assms(1) show ?thesis
    by (auto simp add: wellFormed_def ondataavailable_def)
qed

lemma wellFormed_session:
  assumes "wellFormed c" and "stateRef c \<noteq> IDLE" and "stateRef c \<noteq> ANALYZING"
  shows "streamRef c \<noteq> None"
    and "(mediaRecorderRef c = Some recording) = (stateRef c = RECORDING)"
    and "awaitingStop c = []"
  using assms by (auto simp add: wellFormed_def)

text \<open>
  A stopped session stays stopped until a capture is started, and a classification
  that settles meanwhile changes nothing of it.
\<close>

lemma stopped_stopSession: "stopped (stopSession c)"
  by (simp add: stopped_def stopSession_def updateState_def Let_def)

lemma stopped_settle:
  assumes "stopped c"
  shows "stateRef (step (ClassifierSettled outcome env) c) = stateRef c"
    and "streamRef (step (ClassifierSettled outcome env) c) = None"
    and "mediaRecorderRef (step (ClassifierSettled outcome env) c) = mediaRecorderRef c"
    and "chunksRef (step (ClassifierSettled outcome env) c) = chunksRef c"
    and "awaitingStop (step (ClassifierSettled outcome env) c) = awaitingStop c"
    and "history (step (ClassifierSettled outcome env) c) = history c"
  using assms
  by (cases outcome;
      auto simp add: stopped_def resumeAnalysisLoop_def applyResult_def
        startMediaRecorder_def scheduleNextAnalysis_def Let_def)+

lemma stopped_step:
  assumes "stopped c" and "\<not> isStartCapture e"
  shows "stopped (step e c)"
proof (cases e)
  case (ClassifierSettled outcome env)
  with stopped_settle [OF assms(1), of outcome env] assms(1) show ?thesis
    by (simp add: stopped_def)
next
  case (TimerFired env)
  with assms(1) show ?thesis
    by (auto simp add: stopped_def runAnalysisLoop_def split: option.split)
next
  case (RecorderStopped env)
  with assms(1) show ?thesis
    by (cases "awaitingStop c")
      (auto simp add: stopped_def onstop_def finishGameOver_def updateState_def Let_def)
next
  case (DataAvailable data)
  with assms(1) show ?thesis
    by (auto simp add: stopped_def ondataavailable_def)
next
  case StopSession
  then show ?thesis
    by (simp add: stopped_stopSession)
next
  case StreamInactive
  with assms(1) show ?thesis
    by (simp add: stopped_def)
next
  case (StartCapture outcome)
  with assms(2) show ?thesis
    by simp
qed

lemma stopped_run:
  assumes "stopped c" and "\<forall>e\<in>set es. \<not> isStartCapture e"
  shows "stopped (run es c)"
  using assms
proof (induction es arbitrary: c)
  case Nil
  then show ?case by simp
next
  case (Cons e es)
  from Cons.prems have "stopped (step e c)"
    by (simp add: stopped_step)
  with Cons.IH [of "step e c"] Cons.prems(2) show ?case
    by simp
qed

text \<open>
  The delays of the loop itself are chosen by mode, doubled when the document is hidden
  at the start of the tick.
\<close>

lemma loop_delays:
  assumes "streamRef c = Some True" and "timeoutRef c \<noteq> None"
  shows "hidden env \<Longrightarrow>
           timeoutRef (step (TimerFired env) c) = Some (2 * interval_of (mode c))"
    and "\<not> hidden env \<Longrightarrow> mode c = LOCAL \<Longrightarrow>
           timeoutRef (step (TimerFired env) c) = Some 1000"
    and "0 < inFlight c \<Longrightarrow>
           timeoutRef (step (ClassifierSettled (Resolved r) env) c) = Some (interval_of (mode c))"
    and "interval_of GEMINI = 4000" and "interval_of LOCAL = 1000"
    and "ERROR_BACKOFF_MS = 10000"
  using assms
  by (auto simp add: runAnalysisLoop_def performAnalysis_def resumeAnalysisLoop_def
      scheduleNextAnalysis_def interval_of_def BASE_INTERVAL_MS_def LOCAL_INTERVAL_MS_def
      ERROR_BACKOFF_MS_def Let_def split: option.split)

text \<open>
  A tick that starts while the document is hidden.
\<close>

lemma hidden_tick:
  assumes "hiddenTick e"
  shows "step e c =
           c\<lparr>timeoutRef := (if timeoutRef c \<noteq> None \<and> streamRef c = Some True
                             then Some (2 * interval_of (mode c)) else None)\<rparr>"
proof (cases e)
  case (TimerFired env)
  with assms show ?thesis
    by (cases "timeoutRef c")
      (simp_all add: runAnalysisLoop_def scheduleNextAnalysis_def Let_def)
qed (use assms in simp_all)

lemma hidden_run:
  assumes "\<forall>e\<in>set es. hiddenTick e"
  shows "run es c =
           c\<lparr>timeoutRef := (if es = [] then timeoutRef c
                             else if timeoutRef c \<noteq> None \<and> streamRef c = Some True
                             then Some (2 * interval_of (mode c)) else None)\<rparr>"
  using assms
proof (induction es arbitrary: c)
  case Nil
  show ?case by simp
next
  case (Cons e es)
  from Cons.prems have e: "hiddenTick e" and es: "\<forall>e\<in>set es. hiddenTick e"
    by simp_all
  show ?case
    by (simp add: Cons.IH [OF es] hidden_tick [OF e])
qed

text \<open>
  No other task reads \<open>document.hidden\<close>: a classification that settles and the stop
  event of the recorder are handled the same whether the document is hidden or not.
\<close>

lemma hidden_not_read:
  "step (ClassifierSettled outcome (env\<lparr>hidden := b\<rparr>)) c =
     step (ClassifierSettled outcome env) c"
  "step (RecorderStopped (env\<lparr>hidden := b\<rparr>)) c = step (RecorderStopped env) c"
  by (simp_all add: resumeAnalysisLoop_def applyResult_def handleGameOver_def onstop_def
      finishGameOver_def Let_def split: Outcome.split list.split)

section \<open>Claims about the recorder\<close>

text \<open>
  Claim C1. At the transition from Recording through Analyzing to WaitingForStart (a
  tick that delivers a game-over result while recording, the data events of the closing
  recorder, then its stop event) the state ends in \<open>WAITING_FOR_START\<close> and one record
  is prepended to the history. Its status depends on the reported score alone: unknown
  gives \<open>manual-review\<close> with the flushed buffer attached, a known score of at least 45
  gives \<open>saved\<close> with the buffer attached, a known score below 45 gives \<open>discarded\<close>
  with no buffer. The witness runs the scores 44 and 45 in remote mode and an unknown
  score in local mode.
\<close>

theorem retention_rule:
  assumes "delivers e c r" and "e = TimerFired env \<or> e = ClassifierSettled (Resolved r) env"
    and "isGameOver r"
    and "stateRef c = RECORDING" and "mediaRecorderRef c = Some recording"
    and "awaitingStop c = []"
  shows "stateRef (run (e # map DataAvailable bs @ [RecorderStopped env']) c)
           = WAITING_FOR_START
       \<and> history (run (e # map DataAvailable bs @ [RecorderStopped env']) c)
           = \<lparr>rec_id = randomId env', rec_timestamp = now env', rec_score = score r,
              rec_status = (case score r of
                              None \<Rightarrow> manual_review
                            | Some n \<Rightarrow> if 45 \<le> n then saved else discarded),
              videoBlob = (case score r of
                             None \<Rightarrow> Some (concat (chunksRef c @ bs))
                           | Some n \<Rightarrow> if 45 \<le> n then Some (concat (chunksRef c @ bs))
                                       else None),
              thumbnail = Some (dataURL env)\<rparr> # history c"
proof -
  from delivers_step [OF assms(1)] assms(2) obtain t n where
    s: "step e c =
      (applyResult env r c)\<lparr>timeoutRef := t, inFlight := n, isRateLimited := False,
         timeoutRef := Some (interval_of (mode c))\<rparr>"
    by auto
  have a: "step e c =
      c\<lparr>lastAnalysis := Some (True, score r), stateRef := ANALYZING,
        mediaRecorderRef := Some inactive, awaitingStop := [(score r, dataURL env)],
        inFlight := n, isRateLimited := False,
        timeoutRef := Some (interval_of (mode c))\<rparr>"
    unfolding s applyResult_recording_over [OF assms(4,5,3), of env] using assms(6) by simp
  then have "mediaRecorderRef (step e c) \<noteq> None"
    by simp
  from run_DataAvailable [OF this, of bs]
  have d: "run (map DataAvailable bs) (step e c) =
      c\<lparr>lastAnalysis := Some (True, score r), stateRef := ANALYZING,
        mediaRecorderRef := Some inactive, awaitingStop := [(score r, dataURL env)],
        inFlight := n, isRateLimited := False,
        timeoutRef := Some (interval_of (mode c)),
        chunksRef := chunksRef c @ filter (\<lambda>b. b \<noteq> []) bs\<rparr>"
    by (simp add: a)
  have e: "run (e # map DataAvailable bs @ [RecorderStopped env']) c =
      onstop env' (run (map DataAvailable bs) (step e c))"
    by (simp add: run_append)
  show ?thesis
    unfolding e d
    by (simp add: onstop_def finishGameOver_def updateState_def TARGET_SCORE_def
        concat_nonempty Let_def split: option.split)
qed

theorem retention_rule_witness:
  "delivers (ClassifierSettled (Resolved (gameOver (Some 44))) visibleEnv) classifyingSession
     (gameOver (Some 44))
   \<and> stateRef classifyingSession = RECORDING
   \<and> mediaRecorderRef classifyingSession = Some recording
   \<and> awaitingStop classifyingSession = []
   \<and> history (run (ClassifierSettled (Resolved (gameOver (Some 44))) visibleEnv #
          map DataAvailable [[4, 5]] @ [RecorderStopped visibleEnv]) classifyingSession) =
       [\<lparr>rec_id = ''k3j9x0q2a'', rec_timestamp = 1700000000000, rec_score = Some 44,
         rec_status = discarded, videoBlob = None,
         thumbnail = Some ''data:image/png;base64,iVBORw0KGgo=''\<rparr>]
   \<and> history (run (ClassifierSettled (Resolved (gameOver (Some 45))) visibleEnv #
          map DataAvailable [[4, 5]] @ [RecorderStopped visibleEnv]) classifyingSession) =
       [\<lparr>rec_id = ''k3j9x0q2a'', rec_timestamp = 1700000000000, rec_score = Some 45,
         rec_status = saved, videoBlob = Some [1, 2, 3, 4, 5],
         thumbnail = Some ''data:image/png;base64,iVBORw0KGgo=''\<rparr>]
   \<and> delivers (TimerFired endScreenEnv) localSession (gameOver None)
   \<and> history (run (TimerFired endScreenEnv #
          map DataAvailable [[4, 5]] @ [RecorderStopped visibleEnv]) localSession) =
       [\<lparr>rec_id = ''k3j9x0q2a'', rec_timestamp = 1700000000000, rec_score = None,
         rec_status = manual_review, videoBlob = Some [1, 2, 3, 4, 5],
         thumbnail = Some ''data:image/png;base64,iVBORw0KGgo=''\<rparr>]"
proof -
  have g: "isGameOver (gameOver x)" and sc: "score (gameOver x) = x" for x
    by (simp_all add: gameOver_def)
  have rd: "delivers (ClassifierSettled (Resolved x) visibleEnv) classifyingSession x" for x
    by (simp add: classifyingSession_eval)
  have re: "ClassifierSettled (Resolved x) visibleEnv = TimerFired visibleEnv \<or>
      ClassifierSettled (Resolved x) visibleEnv = ClassifierSettled (Resolved x) visibleEnv"
    for x
    by simp
  have rs: "stateRef classifyingSession = RECORDING"
    and rm: "mediaRecorderRef classifyingSession = Some recording"
    and ra: "awaitingStop classifyingSession = []"
    and rh: "history classifyingSession = []"
    and rk: "chunksRef classifyingSession = [[1, 2, 3]]"
    by (simp_all add: classifyingSession_eval)
  note ld = endScreenEnv_delivers
  have le: "TimerFired endScreenEnv = TimerFired endScreenEnv \<or>
      TimerFired endScreenEnv = ClassifierSettled (Resolved (gameOver None)) endScreenEnv"
    by simp
  have ls: "stateRef localSession = RECORDING"
    and lm: "mediaRecorderRef localSession = Some recording"
    and la: "awaitingStop localSession = []"
    and lh: "history localSession = []"
    and lk: "chunksRef localSession = [[1, 2, 3]]"
    by (simp_all add: localSession_eval)
  have e: "randomId visibleEnv = ''k3j9x0q2a''" "now visibleEnv = 1700000000000"
    "dataURL visibleEnv = ''data:image/png;base64,iVBORw0KGgo=''"
    "dataURL endScreenEnv = ''data:image/png;base64,iVBORw0KGgo=''"
    by (simp_all add: visibleEnv_def endScreenEnv_def)
  note remote = retention_rule [OF rd re g rs rm ra, of _ "[[4, 5]]" visibleEnv,
      THEN conjunct2]
  note local = retention_rule [OF ld le g ls lm la, of "[[4, 5]]" visibleEnv, THEN conjunct2]
  have r44: "history (run (ClassifierSettled (Resolved (gameOver (Some 44))) visibleEnv #
          map DataAvailable [[4, 5]] @ [RecorderStopped visibleEnv]) classifyingSession) =
       [\<lparr>rec_id = ''k3j9x0q2a'', rec_timestamp = 1700000000000, rec_score = Some 44,
         rec_status = discarded, videoBlob = None,
         thumbnail = Some ''data:image/png;base64,iVBORw0KGgo=''\<rparr>]"
    by (simp only: remote [of "Some 44"] sc rh rk e) simp
  have r45: "history (run (ClassifierSettled (Resolved (gameOver (Some 45))) visibleEnv #
          map DataAvailable [[4, 5]] @ [RecorderStopped visibleEnv]) classifyingSession) =
       [\<lparr>rec_id = ''k3j9x0q2a'', rec_timestamp = 1700000000000, rec_score = Some 45,
         rec_status = saved, videoBlob = Some [1, 2, 3, 4, 5],
         thumbnail = Some ''data:image/png;base64,iVBORw0KGgo=''\<rparr>]"
    by (simp only: remote [of "Some 45"] sc rh rk e) simp
  have rn: "history (run (TimerFired endScreenEnv #
          map DataAvailable [[4, 5]] @ [RecorderStopped visibleEnv]) localSession) =
       [\<lparr>rec_id = ''k3j9x0q2a'', rec_timestamp = 1700000000000, rec_score = None,
         rec_status = manual_review, videoBlob = Some [1, 2, 3, 4, 5],
         thumbnail = Some ''data:image/png;base64,iVBORw0KGgo=''\<rparr>]"
    by (simp only: local sc lh lk e) simp
  from rd [of "gameOver (Some 44)"] rs rm ra ld r44 r45 rn show ?thesis
    by blast
qed

text \<open>
  Claim C2. In a session with a stream attached, the buffer open exactly in Recording
  and no flush pending, a tick that delivers a classification result moves the recorder
  as follows. Monitoring and not game over: Recording, a fresh buffer opened. Monitoring
  and game over: WaitingForStart, the buffer untouched. Recording and not game over:
  nothing. Recording and game over: Analyzing with the recorder stopped, then at its
  stop event WaitingForStart with the buffer flushed and one record more. WaitingForStart
  and not game over: Recording, a fresh buffer opened. WaitingForStart and game over:
  nothing. No record is emitted but the one.
\<close>

theorem tick_transitions:
  assumes "delivers e c r" and "streamRef c \<noteq> None"
    and "(mediaRecorderRef c = Some recording) = (stateRef c = RECORDING)"
    and "awaitingStop c = []"
  shows "(stateRef c = MONITORING \<and> \<not> isGameOver r \<longrightarrow>
            stateRef (step e c) = RECORDING \<and> mediaRecorderRef (step e c) = Some recording
          \<and> chunksRef (step e c) = [] \<and> awaitingStop (step e c) = []
          \<and> history (step e c) = history c)
       \<and> (stateRef c = MONITORING \<and> isGameOver r \<longrightarrow>
            stateRef (step e c) = WAITING_FOR_START
          \<and> mediaRecorderRef (step e c) = mediaRecorderRef c
          \<and> chunksRef (step e c) = chunksRef c \<and> awaitingStop (step e c) = []
          \<and> history (step e c) = history c)
       \<and> (stateRef c = RECORDING \<and> \<not> isGameOver r \<longrightarrow>
            stateRef (step e c) = RECORDING \<and> mediaRecorderRef (step e c) = Some recording
          \<and> chunksRef (step e c) = chunksRef c \<and> awaitingStop (step e c) = []
          \<and> history (step e c) = history c)
       \<and> (stateRef c = RECORDING \<and> isGameOver r \<longrightarrow>
            stateRef (step e c) = ANALYZING \<and> mediaRecorderRef (step e c) = Some inactive
          \<and> chunksRef (step e c) = chunksRef c
          \<and> map fst (awaitingStop (step e c)) = [score r]
          \<and> history (step e c) = history c
          \<and> stateRef (step (RecorderStopped env') (step e c)) = WAITING_FOR_START
          \<and> mediaRecorderRef (step (RecorderStopped env') (step e c)) = Some inactive
          \<and> chunksRef (step (RecorderStopped env') (step e c)) = []
          \<and> awaitingStop (step (RecorderStopped env') (step e c)) = []
          \<and> length (history (step (RecorderStopped env') (step e c)))
               = length (history c) + 1)
       \<and> (stateRef c = WAITING_FOR_START \<and> \<not> isGameOver r \<longrightarrow>
            stateRef (step e c) = RECORDING \<and> mediaRecorderRef (step e c) = Some recording
          \<and> chunksRef (step e c) = [] \<and> awaitingStop (step e c) = []
          \<and> history (step e c) = history c)
       \<and> (stateRef c = WAITING_FOR_START \<and> isGameOver r \<longrightarrow>
            stateRef (step e c) = WAITING_FOR_START
          \<and> mediaRecorderRef (step e c) = mediaRecorderRef c
          \<and> chunksRef (step e c) = chunksRef c \<and> awaitingStop (step e c) = []
          \<and> history (step e c) = history c)"
proof -
  from delivers_step [OF assms(1)] obtain env t n where
    s: "step e c =
      (applyResult env r c)\<lparr>timeoutRef := t, inFlight := n, isRateLimited := False,
         timeoutRef := Some (interval_of (mode c))\<rparr>"
    by blast
  note a = applyResult_transitions [OF assms(2,3,4), of r env]
  show ?thesis
  proof (intro conjI impI; elim conjE)
    assume "stateRef c = MONITORING" and "\<not> isGameOver r"
    from a(1) [OF this] assms(4)
    show "stateRef (step e c) = RECORDING" "mediaRecorderRef (step e c) = Some recording"
      "chunksRef (step e c) = []" "awaitingStop (step e c) = []"
      "history (step e c) = history c"
      unfolding s by simp_all
  next
    assume "stateRef c = MONITORING" and "isGameOver r"
    from a(2) [OF this] assms(4)
    show "stateRef (step e c) = WAITING_FOR_START"
      "mediaRecorderRef (step e c) = mediaRecorderRef c"
      "chunksRef (step e c) = chunksRef c" "awaitingStop (step e c) = []"
      "history (step e c) = history c"
      unfolding s by simp_all
  next
    assume st: "stateRef c = RECORDING" and "\<not> isGameOver r"
    from a(3) [OF this] assms(3,4) st
    show "stateRef (step e c) = RECORDING" "mediaRecorderRef (step e c) = Some recording"
      "chunksRef (step e c) = chunksRef c" "awaitingStop (step e c) = []"
      "history (step e c) = history c"
      unfolding s by simp_all
  next
    assume "stateRef c = WAITING_FOR_START" and "\<not> isGameOver r"
    from a(5) [OF this] assms(4)
    show "stateRef (step e c) = RECORDING" "mediaRecorderRef (step e c) = Some recording"
      "chunksRef (step e c) = []" "awaitingStop (step e c) = []"
      "history (step e c) = history c"
      unfolding s by simp_all
  next
    assume st: "stateRef c = WAITING_FOR_START" and "isGameOver r"
    from a(6) [OF this] assms(4) st
    show "stateRef (step e c) = WAITING_FOR_START"
      "mediaRecorderRef (step e c) = mediaRecorderRef c"
      "chunksRef (step e c) = chunksRef c" "awaitingStop (step e c) = []"
      "history (step e c) = history c"
      unfolding s by simp_all
  next
    assume "stateRef c = RECORDING" and "isGameOver r"
    note o = a(4) [OF this]
    show "stateRef (step e c) = ANALYZING" "mediaRecorderRef (step e c) = Some inactive"
      "chunksRef (step e c) = chunksRef c"
      "map fst (awaitingStop (step e c)) = [score r]"
      "history (step e c) = history c"
      unfolding s o by simp_all
    show "stateRef (step (RecorderStopped env') (step e c)) = WAITING_FOR_START"
      "mediaRecorderRef (step (RecorderStopped env') (step e c)) = Some inactive"
      "chunksRef (step (RecorderStopped env') (step e c)) = []"
      "awaitingStop (step (RecorderStopped env') (step e c)) = []"
      "length (history (step (RecorderStopped env') (step e c))) = length (history c) + 1"
      unfolding s o by (simp_all add: onstop_def finishGameOver_def updateState_def Let_def)
  qed
qed

theorem tick_transitions_witness:
  "delivers (ClassifierSettled (Resolved playing) visibleEnv) monitoringInFlight playing
   \<and> stateRef monitoringInFlight = MONITORING
   \<and> stateRef (step (ClassifierSettled (Resolved playing) visibleEnv) monitoringInFlight)
        = RECORDING
   \<and> mediaRecorderRef (step (ClassifierSettled (Resolved playing) visibleEnv)
        monitoringInFlight) = Some recording
   \<and> stateRef (step (ClassifierSettled (Resolved (gameOver (Some 50))) visibleEnv)
        monitoringInFlight) = WAITING_FOR_START
   \<and> mediaRecorderRef (step (ClassifierSettled (Resolved (gameOver (Some 50))) visibleEnv)
        monitoringInFlight) = None
   \<and> stateRef classifyingSession = RECORDING
   \<and> stateRef (step (ClassifierSettled (Resolved playing) visibleEnv) classifyingSession)
        = RECORDING
   \<and> stateRef (step (ClassifierSettled (Resolved (gameOver (Some 50))) visibleEnv)
        classifyingSession) = ANALYZING
   \<and> mediaRecorderRef (step (ClassifierSettled (Resolved (gameOver (Some 50))) visibleEnv)
        classifyingSession) = Some inactive
   \<and> stateRef (step (RecorderStopped visibleEnv)
        (step (ClassifierSettled (Resolved (gameOver (Some 50))) visibleEnv)
           classifyingSession)) = WAITING_FOR_START
   \<and> length (history (step (RecorderStopped visibleEnv)
        (step (ClassifierSettled (Resolved (gameOver (Some 50))) visibleEnv)
           classifyingSession))) = 1
   \<and> stateRef waitingInFlight = WAITING_FOR_START
   \<and> stateRef (step (ClassifierSettled (Resolved playing) visibleEnv) waitingInFlight)
        = RECORDING
   \<and> mediaRecorderRef (step (ClassifierSettled (Resolved playing) visibleEnv) waitingInFlight)
        = Some recording
   \<and> chunksRef (step (ClassifierSettled (Resolved playing) visibleEnv) waitingInFlight) = []
   \<and> stateRef (step (ClassifierSettled (Resolved (gameOver (Some 50))) visibleEnv)
        waitingInFlight) = WAITING_FOR_START
   \<and> delivers (TimerFired endScreenEnv) localSession (gameOver None)
   \<and> stateRef (step (TimerFired endScreenEnv) localSession) = ANALYZING"
proof -
  have p: "\<not> isGameOver playing" and g: "isGameOver (gameOver x)" for x
    by (simp_all add: playing_def gameOver_def)
  have m: "streamRef monitoringInFlight \<noteq> None"
    "(mediaRecorderRef monitoringInFlight = Some recording)
       = (stateRef monitoringInFlight = RECORDING)"
    "awaitingStop monitoringInFlight = []"
    and ms: "stateRef monitoringInFlight = MONITORING"
    and mm: "mediaRecorderRef monitoringInFlight = None"
    and md: "delivers (ClassifierSettled (Resolved x) visibleEnv) monitoringInFlight x" for x
    by (simp_all add: monitoringInFlight_eval monitoringSession_eval)
  have r: "streamRef classifyingSession \<noteq> None"
    "(mediaRecorderRef classifyingSession = Some recording)
       = (stateRef classifyingSession = RECORDING)"
    "awaitingStop classifyingSession = []"
    and rs: "stateRef classifyingSession = RECORDING"
    and rh: "history classifyingSession = []"
    and rd: "delivers (ClassifierSettled (Resolved x) visibleEnv) classifyingSession x" for x
    by (simp_all add: classifyingSession_eval)
  have w: "streamRef waitingInFlight \<noteq> None"
    "(mediaRecorderRef waitingInFlight = Some recording)
       = (stateRef waitingInFlight = RECORDING)"
    "awaitingStop waitingInFlight = []"
    and ws: "stateRef waitingInFlight = WAITING_FOR_START"
    and wd: "delivers (ClassifierSettled (Resolved x) visibleEnv) waitingInFlight x" for x
    by (simp_all add: waitingInFlight_eval waitingSession_eval)
  have l: "streamRef localSession \<noteq> None"
    "(mediaRecorderRef localSession = Some recording) = (stateRef localSession = RECORDING)"
    "awaitingStop localSession = []"
    and ls: "stateRef localSession = RECORDING"
    by (simp_all add: localSession_eval)
  note ld = endScreenEnv_delivers
  from tick_transitions [OF md m, of playing visibleEnv] ms p
  have m1: "stateRef (step (ClassifierSettled (Resolved playing) visibleEnv)
        monitoringInFlight) = RECORDING"
    "mediaRecorderRef (step (ClassifierSettled (Resolved playing) visibleEnv)
        monitoringInFlight) = Some recording"
    by blast+
  from tick_transitions [OF md m, of "gameOver (Some 50)" visibleEnv] ms g
  have m2: "stateRef (step (ClassifierSettled (Resolved (gameOver (Some 50))) visibleEnv)
        monitoringInFlight) = WAITING_FOR_START"
    "mediaRecorderRef (step (ClassifierSettled (Resolved (gameOver (Some 50))) visibleEnv)
        monitoringInFlight) = mediaRecorderRef monitoringInFlight"
    by blast+
  from tick_transitions [OF rd r, of playing visibleEnv] rs p
  have r1: "stateRef (step (ClassifierSettled (Resolved playing) visibleEnv)
        classifyingSession) = RECORDING"
    by blast
  from tick_transitions [OF rd r, of "gameOver (Some 50)" visibleEnv] rs g
  have r2: "stateRef (step (ClassifierSettled (Resolved (gameOver (Some 50))) visibleEnv)
        classifyingSession) = ANALYZING"
    "mediaRecorderRef (step (ClassifierSettled (Resolved (gameOver (Some 50))) visibleEnv)
        classifyingSession) = Some inactive"
    "stateRef (step (RecorderStopped visibleEnv)
        (step (ClassifierSettled (Resolved (gameOver (Some 50))) visibleEnv)
           classifyingSession)) = WAITING_FOR_START"
    "length (history (step (RecorderStopped visibleEnv)
        (step (ClassifierSettled (Resolved (gameOver (Some 50))) visibleEnv)
           classifyingSession))) = length (history classifyingSession) + 1"
    by blast+
  from tick_transitions [OF wd w, of playing visibleEnv] ws p
  have w1: "stateRef (step (ClassifierSettled (Resolved playing) visibleEnv) waitingInFlight)
        = RECORDING"
    "mediaRecorderRef (step (ClassifierSettled (Resolved playing) visibleEnv) waitingInFlight)
        = Some recording"
    "chunksRef (step (ClassifierSettled (Resolved playing) visibleEnv) waitingInFlight) = []"
    by blast+
  from tick_transitions [OF wd w, of "gameOver (Some 50)" visibleEnv] ws g
  have w2: "stateRef (step (ClassifierSettled (Resolved (gameOver (Some 50))) visibleEnv)
        waitingInFlight) = WAITING_FOR_START"
    by blast
  from tick_transitions [OF ld l, of visibleEnv] ls g
  have l1: "stateRef (step (TimerFired endScreenEnv) localSession) = ANALYZING"
    by blast
  from md [of playing] ld ms rs ws show ?thesis
    unfolding m1 m2 r1 r2 w1 w2 l1 mm rh by simp
qed

text \<open>
  Claim C3 says that, once a game-over result is seen in Recording, no tick is scheduled
  until the buffer is flushed and the record emitted. \<open>performAnalysis\<close> calls
  \<open>handleGameOver\<close> without awaiting it, so \<open>runAnalysisLoop\<close> schedules the next
  tick while \<open>handleGameOver\<close> is still suspended at the stop of the recorder. In
  the sample session, after the task that applies the game-over result the state is
  \<open>ANALYZING\<close>, a timer of 4000 ms is pending, the chunks are still unflushed, the
  flush is pending and the history is empty.
\<close>

theorem tick_scheduled_before_flush:
  "stateRef classifyingSession = RECORDING
   \<and> inFlight classifyingSession = 1
   \<and> timeoutRef classifyingSession = None
   \<and> stateRef (step (ClassifierSettled (Resolved (gameOver (Some 50))) visibleEnv)
        classifyingSession) = ANALYZING
   \<and> timeoutRef (step (ClassifierSettled (Resolved (gameOver (Some 50))) visibleEnv)
        classifyingSession) = Some 4000
   \<and> chunksRef (step (ClassifierSettled (Resolved (gameOver (Some 50))) visibleEnv)
        classifyingSession) = [[1, 2, 3]]
   \<and> awaitingStop (step (ClassifierSettled (Resolved (gameOver (Some 50))) visibleEnv)
        classifyingSession) = [(Some 50, ''data:image/png;base64,iVBORw0KGgo='')]
   \<and> history (step (ClassifierSettled (Resolved (gameOver (Some 50))) visibleEnv)
        classifyingSession) = []"
  by (simp add: classifyingSession_eval recorder_defs visibleEnv_def gameOver_def Let_def)

text \<open>
  Claim C3, amended. When a tick delivers a game-over result in Recording with the
  buffer open, the state becomes Analyzing and the recorder is stopped in the same task,
  which also schedules the next tick at the mode interval, before the flush. Ticking is
  not suspended; instead every tick that fires or settles while the state is Analyzing
  leaves the state, the recorder, the chunks, the pending flush and the history as they
  are, so nothing is finalized twice before the stop event of the recorder. The witness
  runs a remote-mode and a local-mode session.
\<close>

theorem analyzing_guards_ticks:
  assumes "delivers e c r" and "isGameOver r"
    and "stateRef c = RECORDING" and "mediaRecorderRef c = Some recording"
  shows "stateRef (step e c) = ANALYZING
       \<and> mediaRecorderRef (step e c) = Some inactive
       \<and> map fst (awaitingStop (step e c)) = map fst (awaitingStop c) @ [score r]
       \<and> history (step e c) = history c
       \<and> timeoutRef (step e c) = Some (interval_of (mode c))
       \<and> (\<forall>es. (\<forall>e'\<in>set es. isTick e') \<longrightarrow>
            stateRef (run es (step e c)) = ANALYZING
          \<and> mediaRecorderRef (run es (step e c)) = Some inactive
          \<and> chunksRef (run es (step e c)) = chunksRef c
          \<and> awaitingStop (run es (step e c)) = awaitingStop (step e c)
          \<and> history (run es (step e c)) = history c)"
proof -
  note d = delivers_recording_over [OF assms(1,3,4,2)]
  have "stateRef (run es (step e c)) = ANALYZING
          \<and> mediaRecorderRef (run es (step e c)) = Some inactive
          \<and> chunksRef (run es (step e c)) = chunksRef c
          \<and> awaitingStop (run es (step e c)) = awaitingStop (step e c)
          \<and> history (run es (step e c)) = history c" if "\<forall>e'\<in>set es. isTick e'" for es
    using analyzing_ticks [OF d(1) that] d by simp
  with d show ?thesis
    by simp
qed

theorem analyzing_guards_ticks_witness:
  "delivers (ClassifierSettled (Resolved (gameOver (Some 50))) visibleEnv) classifyingSession
     (gameOver (Some 50))
   \<and> timeoutRef (step (ClassifierSettled (Resolved (gameOver (Some 50))) visibleEnv)
         classifyingSession) = Some 4000
   \<and> stateRef (run [TimerFired visibleEnv, TimerFired hiddenEnv]
         (step (ClassifierSettled (Resolved (gameOver (Some 50))) visibleEnv)
            classifyingSession)) = ANALYZING
   \<and> history (run [TimerFired visibleEnv, TimerFired hiddenEnv]
         (step (ClassifierSettled (Resolved (gameOver (Some 50))) visibleEnv)
            classifyingSession)) = []
   \<and> delivers (TimerFired endScreenEnv) localSession (gameOver None)
   \<and> timeoutRef (step (TimerFired endScreenEnv) localSession) = Some 1000
   \<and> stateRef (run [TimerFired endScreenEnv, TimerFired hiddenEnv]
         (step (TimerFired endScreenEnv) localSession)) = ANALYZING
   \<and> history (run [TimerFired endScreenEnv, TimerFired hiddenEnv]
         (step (TimerFired endScreenEnv) localSession)) = []"
proof -
  have g: "isGameOver (gameOver x)" for x
    by (simp add: gameOver_def)
  have rd: "delivers (ClassifierSettled (Resolved (gameOver (Some 50))) visibleEnv)
      classifyingSession (gameOver (Some 50))"
    and rs: "stateRef classifyingSession = RECORDING"
    and rm: "mediaRecorderRef classifyingSession = Some recording"
    and rh: "history classifyingSession = []"
    and ri: "interval_of (mode classifyingSession) = 4000"
    by (simp_all add: classifyingSession_eval interval_of_def BASE_INTERVAL_MS_def)
  note ld = endScreenEnv_delivers
  have ls: "stateRef localSession = RECORDING"
    and lm: "mediaRecorderRef localSession = Some recording"
    and lh: "history localSession = []"
    and li: "interval_of (mode localSession) = 1000"
    by (simp_all add: localSession_eval interval_of_def LOCAL_INTERVAL_MS_def)
  have rt: "\<forall>e'\<in>set [TimerFired visibleEnv, TimerFired hiddenEnv]. isTick e'"
    and lt: "\<forall>e'\<in>set [TimerFired endScreenEnv, TimerFired hiddenEnv]. isTick e'"
    by simp_all
  note remote = analyzing_guards_ticks [OF rd g rs rm]
  note local = analyzing_guards_ticks [OF ld g ls lm]
  from remote have r1: "timeoutRef (step (ClassifierSettled (Resolved (gameOver (Some 50)))
      visibleEnv) classifyingSession) = Some (interval_of (mode classifyingSession))"
    by blast
  from remote rt have r2: "stateRef (run [TimerFired visibleEnv, TimerFired hiddenEnv]
         (step (ClassifierSettled (Resolved (gameOver (Some 50))) visibleEnv)
            classifyingSession)) = ANALYZING"
    and r3: "history (run [TimerFired visibleEnv, TimerFired hiddenEnv]
         (step (ClassifierSettled (Resolved (gameOver (Some 50))) visibleEnv)
            classifyingSession)) = history classifyingSession"
    by blast+
  from local have l1: "timeoutRef (step (TimerFired endScreenEnv) localSession)
      = Some (interval_of (mode localSession))"
    by blast
  from local lt have l2: "stateRef (run [TimerFired endScreenEnv, TimerFired hiddenEnv]
         (step (TimerFired endScreenEnv) localSession)) = ANALYZING"
    and l3: "history (run [TimerFired endScreenEnv, TimerFired hiddenEnv]
         (step (TimerFired endScreenEnv) localSession)) = history localSession"
    by blast+
  from rd ld show ?thesis
    unfolding r1 r2 r3 l1 l2 l3 ri li rh lh by simp
qed

text \<open>
  Claim C4. One cycle from Recording through Analyzing to WaitingForStart emits exactly
  one record: after the tick that delivers the game-over result, any ticks before the
  stop event of the recorder leave the state Analyzing and the history unchanged, the
  stop event prepends one record and moves to WaitingForStart, and any later ticks that
  report a finished game (or fail) change neither. The witness runs a remote-mode and a
  local-mode session.
\<close>

theorem one_record_per_cycle:
  assumes "delivers e c r" and "isGameOver r"
    and "stateRef c = RECORDING" and "mediaRecorderRef c = Some recording"
    and "awaitingStop c = []"
    and "\<forall>e'\<in>set ticks. isTick e'"
    and "\<forall>e'\<in>set later. gameOverTick (mode c) e'"
  shows "stateRef (run (e # ticks) c) = ANALYZING
       \<and> history (run (e # ticks) c) = history c
       \<and> stateRef (run (e # ticks @ [RecorderStopped env']) c) = WAITING_FOR_START
       \<and> length (history (run (e # ticks @ [RecorderStopped env']) c))
            = length (history c) + 1
       \<and> stateRef (run (e # ticks @ [RecorderStopped env'] @ later) c) = WAITING_FOR_START
       \<and> history (run (e # ticks @ [RecorderStopped env'] @ later) c)
            = history (run (e # ticks @ [RecorderStopped env']) c)
       \<and> length (history (run (e # ticks @ [RecorderStopped env'] @ later) c))
            = length (history c) + 1"
proof -
  let ?a = "step e c"
  note d = delivers_recording_over [OF assms(1,3,4,2)]
  from d(4) assms(5) obtain x where x: "awaitingStop ?a = [x]"
    by (cases "awaitingStop ?a") auto
  note t = analyzing_ticks [OF d(1) assms(6)]
  from t d x have st: "stateRef (run ticks ?a) = ANALYZING"
    and ht: "history (run ticks ?a) = history c"
    and at: "awaitingStop (run ticks ?a) = [x]"
    and mt: "mode (run ticks ?a) = mode c"
    by simp_all
  let ?w = "run (ticks @ [RecorderStopped env']) ?a"
  have w: "?w = onstop env' (run ticks ?a)"
    by (simp add: run_append)
  have sw: "stateRef ?w = WAITING_FOR_START"
    and hw: "length (history ?w) = length (history c) + 1"
    and mw: "mode ?w = mode c"
    unfolding w
    by (simp_all add: onstop_def finishGameOver_def updateState_def at ht mt Let_def
        split: prod.split)
  from assms(7) mw have "\<forall>e'\<in>set later. gameOverTick (mode ?w) e'"
    by simp
  note l = waiting_ticks [OF sw this]
  have e1: "run (e # ticks) c = run ticks ?a"
    and e2: "run (e # ticks @ [RecorderStopped env']) c = ?w"
    and e3: "run (e # ticks @ [RecorderStopped env'] @ later) c = run later ?w"
    by (simp_all add: run_append)
  from st ht sw hw l show ?thesis
    unfolding e1 e2 e3 by simp
qed

theorem one_record_per_cycle_witness:
  "delivers (ClassifierSettled (Resolved (gameOver (Some 50))) visibleEnv) classifyingSession
     (gameOver (Some 50))
   \<and> length (history (run
        (ClassifierSettled (Resolved (gameOver (Some 50))) visibleEnv #
         [TimerFired visibleEnv, TimerFired visibleEnv] @ [RecorderStopped visibleEnv] @
         [TimerFired visibleEnv, ClassifierSettled (Resolved (gameOver (Some 50))) visibleEnv,
          TimerFired visibleEnv, ClassifierSettled (Resolved (gameOver (Some 50))) visibleEnv])
        classifyingSession)) = 1
   \<and> stateRef (run
        (ClassifierSettled (Resolved (gameOver (Some 50))) visibleEnv #
         [TimerFired visibleEnv, TimerFired visibleEnv] @ [RecorderStopped visibleEnv] @
         [TimerFired visibleEnv, ClassifierSettled (Resolved (gameOver (Some 50))) visibleEnv,
          TimerFired visibleEnv, ClassifierSettled (Resolved (gameOver (Some 50))) visibleEnv])
        classifyingSession) = WAITING_FOR_START
   \<and> delivers (TimerFired endScreenEnv) localSession (gameOver None)
   \<and> length (history (run
        (TimerFired endScreenEnv # [TimerFired endScreenEnv, TimerFired endScreenEnv] @
         [RecorderStopped visibleEnv] @ [TimerFired endScreenEnv, TimerFired endScreenEnv])
        localSession)) = 1
   \<and> stateRef (run
        (TimerFired endScreenEnv # [TimerFired endScreenEnv, TimerFired endScreenEnv] @
         [RecorderStopped visibleEnv] @ [TimerFired endScreenEnv, TimerFired endScreenEnv])
        localSession) = WAITING_FOR_START"
proof -
  have g: "isGameOver (gameOver x)" for x
    by (simp add: gameOver_def)
  have rd: "delivers (ClassifierSettled (Resolved (gameOver (Some 50))) visibleEnv)
      classifyingSession (gameOver (Some 50))"
    and rs: "stateRef classifyingSession = RECORDING"
    and rm: "mediaRecorderRef classifyingSession = Some recording"
    and ra: "awaitingStop classifyingSession = []"
    and rh: "history classifyingSession = []"
    and rmd: "mode classifyingSession = GEMINI"
    by (simp_all add: classifyingSession_eval)
  note ld = endScreenEnv_delivers
  have ls: "stateRef localSession = RECORDING"
    and lm: "mediaRecorderRef localSession = Some recording"
    and la: "awaitingStop localSession = []"
    and lh: "history localSession = []"
    by (simp_all add: localSession_eval)
  have rt: "\<forall>e'\<in>set [TimerFired visibleEnv, TimerFired visibleEnv]. isTick e'"
    and lt: "\<forall>e'\<in>set [TimerFired endScreenEnv, TimerFired endScreenEnv]. isTick e'"
    by simp_all
  have rl: "\<forall>e'\<in>set [TimerFired visibleEnv,
        ClassifierSettled (Resolved (gameOver (Some 50))) visibleEnv, TimerFired visibleEnv,
        ClassifierSettled (Resolved (gameOver (Some 50))) visibleEnv].
      gameOverTick (mode classifyingSession) e'"
    by (simp add: rmd g)
  have ll: "\<forall>e'\<in>set [TimerFired endScreenEnv, TimerFired endScreenEnv].
      gameOverTick (mode localSession) e'"
    by (simp add: endScreenEnv_gameOverTick del: gameOverTick.simps)
  note remote = one_record_per_cycle [OF rd g rs rm ra rt rl, of visibleEnv]
  note local = one_record_per_cycle [OF ld g ls lm la lt ll, of visibleEnv]
  from remote have r1: "length (history (run
        (ClassifierSettled (Resolved (gameOver (Some 50))) visibleEnv #
         [TimerFired visibleEnv, TimerFired visibleEnv] @ [RecorderStopped visibleEnv] @
         [TimerFired visibleEnv, ClassifierSettled (Resolved (gameOver (Some 50))) visibleEnv,
          TimerFired visibleEnv, ClassifierSettled (Resolved (gameOver (Some 50))) visibleEnv])
        classifyingSession)) = length (history classifyingSession) + 1"
    and r2: "stateRef (run
        (ClassifierSettled (Resolved (gameOver (Some 50))) visibleEnv #
         [TimerFired visibleEnv, TimerFired visibleEnv] @ [RecorderStopped visibleEnv] @
         [TimerFired visibleEnv, ClassifierSettled (Resolved (gameOver (Some 50))) visibleEnv,
          TimerFired visibleEnv, ClassifierSettled (Resolved (gameOver (Some 50))) visibleEnv])
        classifyingSession) = WAITING_FOR_START"
    by blast+
  from local have l1: "length (history (run
        (TimerFired endScreenEnv # [TimerFired endScreenEnv, TimerFired endScreenEnv] @
         [RecorderStopped visibleEnv] @ [TimerFired endScreenEnv, TimerFired endScreenEnv])
        localSession)) = length (history localSession) + 1"
    and l2: "stateRef (run
        (TimerFired endScreenEnv # [TimerFired endScreenEnv, TimerFired endScreenEnv] @
         [RecorderStopped visibleEnv] @ [TimerFired endScreenEnv, TimerFired endScreenEnv])
        localSession) = WAITING_FOR_START"
    by blast+
  from rd ld show ?thesis
    unfolding r1 r2 l1 l2 rh lh by simp
qed

text \<open>
  Claim C6. When the classification of a tick fails, the state, the stream, the
  recorder, the chunks, the pending flush, the history and the last analysis stay as
  they are. A failure whose message contains \<open>429\<close> or \<open>RESOURCE_EXHAUSTED\<close>, in remote
  mode, sets the rate-limited flag and schedules the next tick 10000 ms later; any other
  failure leaves the flag and schedules the next tick at the mode interval. A tick is
  always scheduled: no failure stops the session.
\<close>

theorem classification_failure:
  assumes "0 < inFlight c"
  shows "stateRef (step (ClassifierSettled (Rejected message) env) c) = stateRef c
       \<and> streamRef (step (ClassifierSettled (Rejected message) env) c) = streamRef c
       \<and> mediaRecorderRef (step (ClassifierSettled (Rejected message) env) c)
            = mediaRecorderRef c
       \<and> chunksRef (step (ClassifierSettled (Rejected message) env) c) = chunksRef c
       \<and> awaitingStop (step (ClassifierSettled (Rejected message) env) c) = awaitingStop c
       \<and> history (step (ClassifierSettled (Rejected message) env) c) = history c
       \<and> lastAnalysis (step (ClassifierSettled (Rejected message) env) c) = lastAnalysis c
       \<and> timeoutRef (step (ClassifierSettled (Rejected message) env) c)
            = Some (if isQuotaError message \<and> mode c = GEMINI then 10000
                    else if mode c = LOCAL then 1000 else 4000)
       \<and> isRateLimited (step (ClassifierSettled (Rejected message) env) c)
            = (if isQuotaError message \<and> mode c = GEMINI then True else isRateLimited c)
       \<and> isQuotaError message
            = (case message of
                 None \<Rightarrow> False
               | Some m \<Rightarrow> includes_str m ''429'' \<or> includes_str m ''RESOURCE_EXHAUSTED'')"
  using assms
  by (simp add: resumeAnalysisLoop_def scheduleNextAnalysis_def interval_of_def
      ERROR_BACKOFF_MS_def BASE_INTERVAL_MS_def LOCAL_INTERVAL_MS_def isQuotaError_def Let_def)

theorem classification_failure_witness:
  "0 < inFlight (step (TimerFired visibleEnv) monitoringSession)
   \<and> stateRef (step (ClassifierSettled (Rejected (Some ''got status: 429 Too Many Requests''))
        visibleEnv) (step (TimerFired visibleEnv) monitoringSession)) = MONITORING
   \<and> timeoutRef (step (ClassifierSettled (Rejected (Some ''got status: 429 Too Many Requests''))
        visibleEnv) (step (TimerFired visibleEnv) monitoringSession)) = Some 10000
   \<and> isRateLimited (step (ClassifierSettled
        (Rejected (Some ''got status: 429 Too Many Requests''))
        visibleEnv) (step (TimerFired visibleEnv) monitoringSession))
   \<and> stateRef (step (ClassifierSettled (Rejected (Some ''No response from Gemini''))
        visibleEnv) (step (TimerFired visibleEnv) monitoringSession)) = MONITORING
   \<and> timeoutRef (step (ClassifierSettled (Rejected (Some ''No response from Gemini''))
        visibleEnv) (step (TimerFired visibleEnv) monitoringSession)) = Some 4000
   \<and> \<not> isRateLimited (step (ClassifierSettled (Rejected (Some ''No response from Gemini''))
        visibleEnv) (step (TimerFired visibleEnv) monitoringSession))"
proof -
  let ?c = "step (TimerFired visibleEnv) monitoringSession"
  have c: "?c = monitoringSession\<lparr>timeoutRef := None, inFlight := 1\<rparr>"
    by (simp add: monitoringSession_eval recorder_defs visibleEnv_def Let_def)
  have f: "0 < inFlight ?c"
    and s: "stateRef ?c = MONITORING" and m: "mode ?c = GEMINI"
    and l: "\<not> isRateLimited ?c"
    unfolding c by (simp_all add: monitoringSession_eval)
  have q: "isQuotaError (Some ''got status: 429 Too Many Requests'')"
    and n: "\<not> isQuotaError (Some ''No response from Gemini'')"
    by (simp_all add: isQuotaError_def)
  note quota = classification_failure [OF f, of "Some ''got status: 429 Too Many Requests''"
      visibleEnv]
  note other = classification_failure [OF f, of "Some ''No response from Gemini''" visibleEnv]
  from quota have q1: "stateRef (step (ClassifierSettled
        (Rejected (Some ''got status: 429 Too Many Requests'')) visibleEnv) ?c) = stateRef ?c"
    and q2: "timeoutRef (step (ClassifierSettled
        (Rejected (Some ''got status: 429 Too Many Requests'')) visibleEnv) ?c)
        = Some (if isQuotaError (Some ''got status: 429 Too Many Requests'') \<and> mode ?c = GEMINI
                then 10000 else if mode ?c = LOCAL then 1000 else 4000)"
    and q3: "isRateLimited (step (ClassifierSettled
        (Rejected (Some ''got status: 429 Too Many Requests'')) visibleEnv) ?c)
        = (if isQuotaError (Some ''got status: 429 Too Many Requests'') \<and> mode ?c = GEMINI
           then True else isRateLimited ?c)"
    by blast+
  from other have o1: "stateRef (step (ClassifierSettled
        (Rejected (Some ''No response from Gemini'')) visibleEnv) ?c) = stateRef ?c"
    and o2: "timeoutRef (step (ClassifierSettled
        (Rejected (Some ''No response from Gemini'')) visibleEnv) ?c)
        = Some (if isQuotaError (Some ''No response from Gemini'') \<and> mode ?c = GEMINI
                then 10000 else if mode ?c = LOCAL then 1000 else 4000)"
    and o3: "isRateLimited (step (ClassifierSettled
        (Rejected (Some ''No response from Gemini'')) visibleEnv) ?c)
        = (if isQuotaError (Some ''No response from Gemini'') \<and> mode ?c = GEMINI
           then True else isRateLimited ?c)"
    by blast+
  show ?thesis
    unfolding q1 q2 q3 o1 o2 o3 using f s m l q n by simp
qed

text \<open>
  Claim C7 says that the result of a classification in flight when the session is
  stopped produces no transition and opens no buffer when it arrives. The call carries
  no mark of its session, and \<open>performAnalysis\<close> dispatches on \<open>stateRef.current\<close> as
  it is when the call settles. In the sample session a call is in flight while
  recording; the session is stopped (\<open>IDLE\<close>) and a new capture is granted
  (\<open>MONITORING\<close>) before the call settles. Its result, a running game, is then applied
  to the new session: the state becomes \<open>RECORDING\<close>, the chunks are reset and a new
  recorder is started.
\<close>

theorem stale_result_applied_after_restart:
  "inFlight classifyingSession = 1
   \<and> stateRef (run [StopSession] classifyingSession) = IDLE
   \<and> run [StopSession, StartCapture Granted] classifyingSession =
       classifyingSession\<lparr>stateRef := MONITORING, mediaRecorderRef := Some inactive,
         lastAnalysis := None, timeoutRef := Some 1000\<rparr>
   \<and> run [StopSession, StartCapture Granted,
        ClassifierSettled (Resolved playing) visibleEnv] classifyingSession =
       classifyingSession\<lparr>stateRef := RECORDING, mediaRecorderRef := Some recording,
         chunksRef := [], inFlight := 0, lastAnalysis := Some (False, Some 0),
         timeoutRef := Some 4000\<rparr>"
  by (simp add: classifyingSession_eval recorder_defs playing_def visibleEnv_def Let_def)

text \<open>
  Claim C7, amended. \<open>stopSession\<close> forces the state to \<open>IDLE\<close> and leaves the
  classification call in flight. When the call settles, with any outcome and after any
  tasks other than the start of a new capture, the state, the recorder, the chunks, the
  pending flush and the history are what they were just before, and no stream is
  attached: the dispatch of \<open>performAnalysis\<close> matches no state, and
  \<open>startMediaRecorder\<close> does nothing without a stream.
\<close>

theorem stale_result_discarded:
  assumes "\<forall>e\<in>set es. \<not> isStartCapture e"
  shows "stateRef (stopSession c) = IDLE
       \<and> inFlight (stopSession c) = inFlight c
       \<and> stateRef (step (ClassifierSettled outcome env) (stopSession c)) = IDLE
       \<and> stateRef (run (StopSession # es @ [ClassifierSettled outcome env]) c)
            = stateRef (run (StopSession # es) c)
       \<and> streamRef (run (StopSession # es @ [ClassifierSettled outcome env]) c) = None
       \<and> mediaRecorderRef (run (StopSession # es @ [ClassifierSettled outcome env]) c)
            = mediaRecorderRef (run (StopSession # es) c)
       \<and> chunksRef (run (StopSession # es @ [ClassifierSettled outcome env]) c)
            = chunksRef (run (StopSession # es) c)
       \<and> awaitingStop (run (StopSession # es @ [ClassifierSettled outcome env]) c)
            = awaitingStop (run (StopSession # es) c)
       \<and> history (run (StopSession # es @ [ClassifierSettled outcome env]) c)
            = history (run (StopSession # es) c)
       \<and> startMediaRecorder (run (StopSession # es) c) = run (StopSession # es) c"
proof -
  let ?s = "run (StopSession # es) c"
  have s: "stopped ?s"
    using stopped_run [OF stopped_stopSession assms, of c] by simp
  have e: "run (StopSession # es @ [ClassifierSettled outcome env]) c =
      step (ClassifierSettled outcome env) ?s"
    by (simp add: run_append)
  have i: "stateRef (stopSession c) = IDLE" "inFlight (stopSession c) = inFlight c"
    by (simp_all add: stopSession_def updateState_def Let_def)
  have j: "stateRef (step (ClassifierSettled outcome env) (stopSession c)) = IDLE"
    using stopped_settle(1) [OF stopped_stopSession, of outcome env c] i by simp
  have g: "startMediaRecorder ?s = ?s"
    using s by (simp add: startMediaRecorder_def stopped_def)
  from stopped_settle [OF s, of outcome env] i j g show ?thesis
    unfolding e by simp
qed

theorem stale_result_discarded_witness:
  "\<not> isStartCapture (DataAvailable [9])
   \<and> inFlight classifyingSession = 1
   \<and> run [StopSession, DataAvailable [9],
        ClassifierSettled (Resolved (gameOver (Some 50))) visibleEnv] classifyingSession
       = classifyingSession\<lparr>stateRef := IDLE, streamRef := None,
           mediaRecorderRef := Some inactive, chunksRef := [[1, 2, 3], [9]], inFlight := 0,
           lastAnalysis := Some (True, Some 50), timeoutRef := Some 4000\<rparr>
   \<and> stateRef (run [StopSession, DataAvailable [9],
        ClassifierSettled (Resolved playing) visibleEnv] classifyingSession) = IDLE
   \<and> mediaRecorderRef (run [StopSession, DataAvailable [9],
        ClassifierSettled (Resolved playing) visibleEnv] classifyingSession) = Some inactive
   \<and> history (run [StopSession, DataAvailable [9],
        ClassifierSettled (Resolved playing) visibleEnv] classifyingSession) = []"
proof -
  have n: "\<forall>e\<in>set [DataAvailable [9]]. \<not> isStartCapture e"
    by simp
  have b: "run [StopSession, DataAvailable [9]] classifyingSession =
      classifyingSession\<lparr>stateRef := IDLE, streamRef := None,
        mediaRecorderRef := Some inactive, chunksRef := [[1, 2, 3], [9]],
        lastAnalysis := None\<rparr>"
    by (simp add: classifyingSession_eval stopSession_def updateState_def ondataavailable_def
        Let_def)
  note play = stale_result_discarded [OF n, of classifyingSession "Resolved playing" visibleEnv,
      unfolded append.simps]
  from play have p: "stateRef (run [StopSession, DataAvailable [9],
        ClassifierSettled (Resolved playing) visibleEnv] classifyingSession)
        = stateRef (run [StopSession, DataAvailable [9]] classifyingSession)"
    "mediaRecorderRef (run [StopSession, DataAvailable [9],
        ClassifierSettled (Resolved playing) visibleEnv] classifyingSession)
        = mediaRecorderRef (run [StopSession, DataAvailable [9]] classifyingSession)"
    "history (run [StopSession, DataAvailable [9],
        ClassifierSettled (Resolved playing) visibleEnv] classifyingSession)
        = history (run [StopSession, DataAvailable [9]] classifyingSession)"
    by blast+
  have o: "run [StopSession, DataAvailable [9],
        ClassifierSettled (Resolved (gameOver (Some 50))) visibleEnv] classifyingSession
       = classifyingSession\<lparr>stateRef := IDLE, streamRef := None,
           mediaRecorderRef := Some inactive, chunksRef := [[1, 2, 3], [9]], inFlight := 0,
           lastAnalysis := Some (True, Some 50), timeoutRef := Some 4000\<rparr>"
    by (simp add: classifyingSession_eval recorder_defs ondataavailable_def gameOver_def
        visibleEnv_def Let_def)
  have f: "inFlight classifyingSession = 1"
    by (simp add: classifyingSession_eval)
  from f o show ?thesis
    unfolding p b by (simp add: classifyingSession_eval)
qed

text \<open>
  Claim C8 says every scheduled delay is chosen by mode, 4000 ms in remote mode. The
  first tick, scheduled by \<open>startCapture\<close>, is 1000 ms away in both modes: the source
  reads \<open>mode === 'LOCAL' ? LOCAL_INTERVAL_MS : 1000\<close> under the comment
  \<open>Local mode checks faster than Gemini mode\<close>, while the interval of the loop in remote
  mode is \<open>BASE_INTERVAL_MS = 4000\<close>.
\<close>

theorem first_tick_delay:
  "timeoutRef (step (StartCapture Granted) (initial GEMINI)) = Some 1000
   \<and> timeoutRef (step (StartCapture Granted) (initial LOCAL)) = Some 1000
   \<and> interval_of GEMINI = 4000 \<and> interval_of LOCAL = 1000"
  by (simp add: initial_def recorder_defs Let_def)

text \<open>
  Claim C10 says that, for as long as the document stays hidden, no classification
  result is produced and no transition or buffer operation occurs. \<open>document.hidden\<close>
  is read only at the start of \<open>runAnalysisLoop\<close>. In the sample session a remote
  classification was dispatched from \<open>MONITORING\<close> by a tick that started while the
  document was visible. The document is hidden when the call settles: its result, a
  running game, is applied all the same (\<open>RECORDING\<close>, a recorder started, the next
  tick 4000 ms away). The tick after it starts hidden and only reschedules, at 8000 ms,
  and the chunk the recorder delivers next is appended.
\<close>

theorem result_applied_while_hidden:
  "hidden hiddenEnv
   \<and> monitoringInFlight = monitoringSession\<lparr>timeoutRef := None, inFlight := 1\<rparr>
   \<and> stateRef monitoringSession = MONITORING
   \<and> mediaRecorderRef monitoringSession = None
   \<and> step (ClassifierSettled (Resolved playing) hiddenEnv) monitoringInFlight =
       monitoringSession\<lparr>stateRef := RECORDING, mediaRecorderRef := Some recording,
         lastAnalysis := Some (False, Some 0), timeoutRef := Some 4000\<rparr>
   \<and> run [ClassifierSettled (Resolved playing) hiddenEnv, TimerFired hiddenEnv,
        DataAvailable [7]] monitoringInFlight =
       monitoringSession\<lparr>stateRef := RECORDING, mediaRecorderRef := Some recording,
         chunksRef := [[7]], lastAnalysis := Some (False, Some 0),
         timeoutRef := Some 8000\<rparr>"
  by (simp add: monitoringInFlight_eval monitoringSession_eval recorder_defs playing_def
      hiddenEnv_def visibleEnv_def Let_def)

text \<open>
  Claim C10, amended. A tick that starts while the document is hidden changes nothing
  but the timer: no frame is sampled, no classification is started (\<open>inFlight\<close> and
  \<open>lastAnalysis\<close> are unchanged), no state changes and no buffer is touched. With an
  active stream the next tick is scheduled at twice the mode interval, 8000 ms in remote
  mode and 2000 ms in local mode; with none, the loop ends. So any run of ticks that all
  start hidden leaves the recorder as it was, up to the timer. The hidden flag is read
  nowhere else: a classification that settles and the stop event of the recorder are
  handled the same whether the document is hidden or not. The witness runs a remote-mode
  session, a local-mode session and a component with no stream.
\<close>

theorem hidden_ticks_only_reschedule:
  assumes "\<forall>e\<in>set es. hiddenTick e"
  shows "run es c =
           c\<lparr>timeoutRef := (if es = [] then timeoutRef c
                             else if timeoutRef c \<noteq> None \<and> streamRef c = Some True
                             then Some (if mode c = LOCAL then 2000 else 8000) else None)\<rparr>
       \<and> (\<forall>env. hidden env \<longrightarrow>
            step (TimerFired env) c =
              c\<lparr>timeoutRef := (if timeoutRef c \<noteq> None \<and> streamRef c = Some True
                                then Some (if mode c = LOCAL then 2000 else 8000)
                                else None)\<rparr>)
       \<and> step (ClassifierSettled outcome (env\<lparr>hidden := b\<rparr>)) c =
           step (ClassifierSettled outcome env) c
       \<and> step (RecorderStopped (env\<lparr>hidden := b\<rparr>)) c = step (RecorderStopped env) c"
proof -
  have d: "2 * interval_of (mode c) = (if mode c = LOCAL then 2000 else 8000)"
    by (simp add: interval_of_def BASE_INTERVAL_MS_def LOCAL_INTERVAL_MS_def)
  have r: "run es c =
      c\<lparr>timeoutRef := (if es = [] then timeoutRef c
                        else if timeoutRef c \<noteq> None \<and> streamRef c = Some True
                        then Some (if mode c = LOCAL then 2000 else 8000) else None)\<rparr>"
    using hidden_run [OF assms, of c] unfolding d .
  have t: "\<forall>env. hidden env \<longrightarrow>
      step (TimerFired env) c =
        c\<lparr>timeoutRef := (if timeoutRef c \<noteq> None \<and> streamRef c = Some True
                          then Some (if mode c = LOCAL then 2000 else 8000) else None)\<rparr>"
    using hidden_tick [of "TimerFired _" c] unfolding d by simp
  show ?thesis
    by (intro conjI r t hidden_not_read)
qed

theorem hidden_ticks_only_reschedule_witness:
  "hiddenTick (TimerFired hiddenEnv)
   \<and> run [TimerFired hiddenEnv, TimerFired hiddenEnv, TimerFired hiddenEnv] recordingSession
       = recordingSession\<lparr>timeoutRef := Some 8000\<rparr>
   \<and> run [TimerFired hiddenEnv, TimerFired hiddenEnv] localSession
       = localSession\<lparr>timeoutRef := Some 2000\<rparr>
   \<and> step (TimerFired hiddenEnv) localSession = localSession\<lparr>timeoutRef := Some 2000\<rparr>
   \<and> run [TimerFired hiddenEnv, TimerFired hiddenEnv] (initial LOCAL) = initial LOCAL"
proof -
  have h: "hidden hiddenEnv"
    by (simp add: hiddenEnv_def)
  then have t: "hiddenTick (TimerFired hiddenEnv)"
    by simp
  have a3: "\<forall>e\<in>set [TimerFired hiddenEnv, TimerFired hiddenEnv, TimerFired hiddenEnv].
      hiddenTick e"
    using t by simp
  have a2: "\<forall>e\<in>set [TimerFired hiddenEnv, TimerFired hiddenEnv]. hiddenTick e"
    using t by simp
  have r: "run [TimerFired hiddenEnv, TimerFired hiddenEnv, TimerFired hiddenEnv]
        recordingSession = recordingSession\<lparr>timeoutRef := Some 8000\<rparr>"
    using hidden_ticks_only_reschedule [OF a3, of recordingSession, THEN conjunct1]
    by (simp add: recordingSession_eval)
  have l: "run [TimerFired hiddenEnv, TimerFired hiddenEnv] localSession
        = localSession\<lparr>timeoutRef := Some 2000\<rparr>"
    using hidden_ticks_only_reschedule [OF a2, of localSession, THEN conjunct1]
    by (simp add: localSession_eval)
  have s: "step (TimerFired hiddenEnv) localSession = localSession\<lparr>timeoutRef := Some 2000\<rparr>"
    using hidden_ticks_only_reschedule [OF a2, of localSession, THEN conjunct2,
        THEN conjunct1, rule_format, OF h]
    by (simp add: localSession_eval)
  have i: "run [TimerFired hiddenEnv, TimerFired hiddenEnv] (initial LOCAL) = initial LOCAL"
    using hidden_ticks_only_reschedule [OF a2, of "initial LOCAL", THEN conjunct1]
    by (simp add: initial_def)
  from t r l s i show ?thesis
    by blast
qed

end
